theory Spec2Isabelle
  imports Complex_Main "HOL-Library.AList" "HOL-Library.Sublist"
begin

section \<open>Python values used by pyWeight\_problem\<close>

text \<open>
  Scalars (the values of design variables, fractions, bounds, offsets) are kept
  polymorphic in a type \<open>'a\<close> that only has to offer \<open>0\<close>, \<open>1\<close>, \<open>+\<close> and \<open>-\<close>:
  nothing proved below uses a law of arithmetic, so every statement holds whatever
  number type the Python program is run with.

  A Python \<open>dict\<close> is an association list. \<open>dict_get\<close> is the lookup \<open>d[k]\<close> (with
  \<open>None\<close> for a missing key, where Python raises \<open>KeyError\<close>), \<open>dict_set\<close> is the
  assignment \<open>d[k] = v\<close>, \<open>dict_keys\<close> the keys a \<open>for k in d\<close> loop visits and
  \<open>dict_items\<close> the pairs \<open>(k, d[k])\<close> of such a loop. The order of the list is the
  iteration order; the source is Python 2, where that order is arbitrary, and no
  statement below depends on it.
\<close>

definition dict_get :: "('k \<times> 'v) list \<Rightarrow> 'k \<Rightarrow> 'v option" where
  "dict_get d k = map_of d k"

definition dict_set :: "('k \<times> 'v) list \<Rightarrow> 'k \<Rightarrow> 'v \<Rightarrow> ('k \<times> 'v) list" where
  "dict_set d k v = AList.update k v d"

definition dict_keys :: "('k \<times> 'v) list \<Rightarrow> 'k list" where
  "dict_keys d = remdups (map fst d)"

definition dict_items :: "('k \<times> 'v) list \<Rightarrow> ('k \<times> 'v) list" where
  "dict_items d = List.map_filter (\<lambda>k. map_option (Pair k) (dict_get d k)) (dict_keys d)"

definition dict_contains :: "('k \<times> 'v) list \<Rightarrow> 'k \<Rightarrow> bool" where
  "dict_contains d k = (dict_get d k \<noteq> None)"

text \<open>\<open>str.lower()\<close> on ASCII text: the letters \<open>A\<close> to \<open>Z\<close> move to \<open>a\<close> to \<open>z\<close>.\<close>

definition lower_char :: "char \<Rightarrow> char" where
  "lower_char c =
     (case map_of (zip ''ABCDEFGHIJKLMNOPQRSTUVWXYZ'' ''abcdefghijklmnopqrstuvwxyz'') c of
        None \<Rightarrow> c
      | Some l \<Rightarrow> l)"

definition py_lower :: "string \<Rightarrow> string" where
  "py_lower s = map lower_char s"

text \<open>
  The exceptions the modelled code can raise. \<open>Error\<close> is the module's own exception
  class; it carries the message its constructor is given (the constructor also prints
  the message in a box, which is not modelled). An operation that mutates an object
  returns an \<open>outcome\<close>: the state it leaves behind, and the exception when it raised.
\<close>

datatype error = Error string | KeyError string | AttributeError string

datatype 's outcome = Returned 's | Raised error 's

fun state_of :: "'s outcome \<Rightarrow> 's" where
  "state_of (Returned s) = s"
| "state_of (Raised e s) = s"

fun raised :: "'s outcome \<Rightarrow> error option" where
  "raised (Returned s) = None"
| "raised (Raised e s) = Some e"

section \<open>fuelCaseDV and FuelCase\<close>

record 'a fuelCaseDV =
  dv_key :: string
  dv_value :: 'a
  dv_lower :: "'a option"
  dv_upper :: "'a option"
  dv_scale :: 'a
  dv_offset :: 'a
  dv_addToPyOpt :: bool

text \<open>
  A \<open>FuelCase\<close> object. \<open>otherAttrs\<close> holds attributes that \<open>setattr\<close> creates under
  a name that is not a declared field. \<open>possibleDVs\<close> is assigned once in
  \<open>__init__\<close> and never written again, so it is a constant here.
\<close>

record 'a FuelCase =
  fc_name :: string
  fuelFraction :: 'a
  reserveFraction :: 'a
  DVs :: "(string \<times> 'a fuelCaseDV) list"
  DVNames :: "(string \<times> string) list"
  otherAttrs :: "(string \<times> 'a) list"

definition possibleDVs :: "string list" where
  "possibleDVs = [''fuelFraction'', ''reserveFraction'']"

definition FuelCase_init :: "string \<Rightarrow> 'a \<Rightarrow> 'a \<Rightarrow> 'a FuelCase" where
  "FuelCase_init nm ff rf =
     \<lparr>fc_name = nm, fuelFraction = ff, reserveFraction = rf,
      DVs = [], DVNames = [], otherAttrs = []\<rparr>"

text \<open>
  \<open>getattr(self, key)\<close> and \<open>setattr(self, key, v)\<close> for scalar attributes. The
  non-scalar attributes \<open>name\<close>, \<open>DVs\<close>, \<open>DVNames\<close> and \<open>possibleDVs\<close> are never read
  or written this way by the code: every key that reaches \<open>getattr\<close> or \<open>setattr\<close>
  has passed the whitelist test of \<open>addDV\<close> (see \<open>wf_case\<close> below).
\<close>

definition getattr_fc :: "'a FuelCase \<Rightarrow> string \<Rightarrow> 'a option" where
  "getattr_fc c k =
     (if k = ''fuelFraction'' then Some (fuelFraction c)
      else if k = ''reserveFraction'' then Some (reserveFraction c)
      else dict_get (otherAttrs c) k)"

definition setattr_fc :: "'a FuelCase \<Rightarrow> string \<Rightarrow> 'a \<Rightarrow> 'a FuelCase" where
  "setattr_fc c k v =
     (if k = ''fuelFraction'' then c\<lparr>fuelFraction := v\<rparr>
      else if k = ''reserveFraction'' then c\<lparr>reserveFraction := v\<rparr>
      else c\<lparr>otherAttrs := dict_set (otherAttrs c) k v\<rparr>)"

text \<open>\<open>repr\<close> of a list of strings, as in \<open>repr(self.possibleDVs)\<close>.\<close>

fun repr_items :: "string list \<Rightarrow> string" where
  "repr_items [] = ''''"
| "repr_items [s] = [CHR 0x27] @ s @ [CHR 0x27]"
| "repr_items (s # t # ss) = [CHR 0x27] @ s @ [CHR 0x27] @ '', '' @ repr_items (t # ss)"

definition repr_list :: "string list \<Rightarrow> string" where
  "repr_list ss = ''['' @ repr_items ss @ '']''"

definition addDV_message :: "string \<Rightarrow> string" where
  "addDV_message k =
     ''The DV '' @ [CHR 0x27] @ k @ [CHR 0x27] @
     '' could not be added.  The list of possible DVs are: '' @ repr_list possibleDVs @ ''.''"

text \<open>
  \<open>FuelCase.addDV(key, value, lower, upper, scale, name, offset, axis, addToPyOpt)\<close>.
  Optional arguments whose default is \<open>None\<close> are options; \<open>axis\<close> is given as the
  text that \<open>'_%s' % axis\<close> inserts.
\<close>

definition addDV_name :: "'a FuelCase \<Rightarrow> string \<Rightarrow> string option \<Rightarrow> string option \<Rightarrow> string" where
  "addDV_name c k nm axis =
     (let dvName = (case nm of None \<Rightarrow> fc_name c @ ''_'' @ k | Some n \<Rightarrow> n)
      in case axis of None \<Rightarrow> dvName | Some ax \<Rightarrow> dvName @ ''_'' @ ax)"

definition addDV ::
  "string \<Rightarrow> 'a option \<Rightarrow> 'a option \<Rightarrow> 'a option \<Rightarrow> 'a \<Rightarrow> string option \<Rightarrow> 'a \<Rightarrow>
   string option \<Rightarrow> bool \<Rightarrow> 'a FuelCase \<Rightarrow> 'a FuelCase outcome" where
  "addDV k val lo up sc nm off axis add c =
     (if k \<notin> set possibleDVs then Raised (Error (addDV_message k)) c
      else
        let dvName = addDV_name c k nm axis
        in case (case val of None \<Rightarrow> getattr_fc c k | Some v \<Rightarrow> Some v) of
             None \<Rightarrow> Raised (AttributeError k) c
           | Some v \<Rightarrow>
               Returned (c\<lparr>DVs := dict_set (DVs c) dvName
                                   \<lparr>dv_key = k, dv_value = v, dv_lower = lo, dv_upper = up,
                                    dv_scale = sc, dv_offset = off, dv_addToPyOpt = add\<rparr>,
                            DVNames := dict_set (DVNames c) k dvName\<rparr>))"

text \<open>
  The keys of \<open>DVNames\<close> are written by \<open>addDV\<close> only, after its whitelist test; a
  case whose \<open>DVNames\<close> has whitelisted keys only is well formed.
\<close>

definition wf_case :: "'a FuelCase \<Rightarrow> bool" where
  "wf_case c = (set (dict_keys (DVNames c)) \<subseteq> set possibleDVs)"

text \<open>
  \<open>FuelCase.setDesignVars(x)\<close>: the loop \<open>for key in self.DVNames\<close>, over the keys
  still to visit. \<open>self.DVs[dvName]\<close> is read (for the offset) before \<open>setattr\<close>
  writes, so a missing entry raises \<open>KeyError\<close> with the case as it was.
\<close>

fun FuelCase_setDesignVars_loop ::
  "(string \<times> 'a::plus) list \<Rightarrow> string list \<Rightarrow> 'a FuelCase \<Rightarrow> 'a FuelCase outcome" where
  "FuelCase_setDesignVars_loop x [] c = Returned c"
| "FuelCase_setDesignVars_loop x (k # ks) c =
     (case dict_get (DVNames c) k of
        None \<Rightarrow> Raised (KeyError k) c
      | Some dvName \<Rightarrow>
          (case dict_get x dvName of
             None \<Rightarrow> FuelCase_setDesignVars_loop x ks c
           | Some v \<Rightarrow>
               (case dict_get (DVs c) dvName of
                  None \<Rightarrow> Raised (KeyError dvName) c
                | Some dv \<Rightarrow>
                    let c1 = setattr_fc c k (v + dv_offset dv);
                        c2 = c1\<lparr>DVs := dict_set (DVs c1) dvName (dv\<lparr>dv_value := v\<rparr>)\<rparr>
                    in FuelCase_setDesignVars_loop x ks c2)))"

definition FuelCase_setDesignVars ::
  "(string \<times> 'a::plus) list \<Rightarrow> 'a FuelCase \<Rightarrow> 'a FuelCase outcome" where
  "FuelCase_setDesignVars x c = FuelCase_setDesignVars_loop x (dict_keys (DVNames c)) c"

subsection \<open>The optimizer problem and the linear constraint\<close>

text \<open>
  The optimizer object is external; it is modelled by what it is told: the variables
  passed to \<open>addVar\<close> and the constraints passed to \<open>addCon\<close>, in call order.
\<close>

record 'a optVar =
  var_name :: string
  var_type :: string
  var_value :: 'a
  var_lower :: "'a option"
  var_upper :: "'a option"
  var_scale :: 'a

record 'a optCon =
  con_name :: string
  con_lower :: 'a
  con_upper :: 'a
  con_scale :: 'a
  con_linear :: bool
  con_wrt :: "string list"
  con_jac :: "(string \<times> 'a list list) list"

record 'a optProb =
  optVars :: "'a optVar list"
  optCons :: "'a optCon list"

definition addVar :: "'a optVar \<Rightarrow> 'a optProb \<Rightarrow> 'a optProb" where
  "addVar v op = op\<lparr>optVars := optVars op @ [v]\<rparr>"

definition addCon :: "'a optCon \<Rightarrow> 'a optProb \<Rightarrow> 'a optProb" where
  "addCon cn op = op\<lparr>optCons := optCons op @ [cn]\<rparr>"

text \<open>
  \<open>FuelCase.addLinearConstraint(optProb, prefix)\<close>. The first loop sets the two flags
  from the keys of \<open>DVNames\<close>, compared in lower case.
\<close>

definition linearConstraint_flags :: "string list \<Rightarrow> bool \<times> bool" where
  "linearConstraint_flags ks =
     fold (\<lambda>k (reserveDV, fuelDV).
             (if py_lower k = ''reservefraction'' then True else reserveDV,
              if py_lower k = ''fuelfraction'' then True else fuelDV))
          ks (False, False)"

definition addLinearConstraint ::
  "'a::{zero,one,minus} FuelCase \<Rightarrow> 'a optProb \<Rightarrow> string \<Rightarrow> 'a optProb" where
  "addLinearConstraint c op pfx =
     (let (reserveDV, fuelDV) = linearConstraint_flags (dict_keys (DVNames c));
          conName = pfx @ ''_'' @ fc_name c @ ''_fuelcase'';
          var1Name = pfx @ ''_'' @ fc_name c @ ''_fuelFraction'';
          var2Name = pfx @ ''_'' @ fc_name c @ ''_reserveFraction''
      in if reserveDV \<and> fuelDV then
           addCon \<lparr>con_name = conName, con_lower = 0, con_upper = 1, con_scale = 1,
                   con_linear = True, con_wrt = [var1Name, var2Name],
                   con_jac = dict_set (dict_set [] var1Name [[1]]) var2Name [[1]]\<rparr> op
         else if reserveDV then
           addCon \<lparr>con_name = conName, con_lower = 0, con_upper = 1 - fuelFraction c,
                   con_scale = 1, con_linear = True, con_wrt = [var2Name],
                   con_jac = dict_set [] var2Name [[1]]\<rparr> op
         else if fuelDV then
           addCon \<lparr>con_name = conName, con_lower = 0, con_upper = 1 - reserveFraction c,
                   con_scale = 1, con_linear = True, con_wrt = [var1Name],
                   con_jac = dict_set [] var1Name [[1]]\<rparr> op
         else op)"

section \<open>Components and the WeightProblem\<close>

text \<open>
  Component classes are not part of this module. A component is an object with the
  attributes the module reads (\<open>name\<close>, \<open>compType\<close>, \<open>DVs\<close>, whose entries are read
  like a \<open>fuelCaseDV\<close>) and any further state, the record's extension. Its methods
  \<open>setUnitSystem\<close> and \<open>setDesignVars\<close> are parameters of the operations that call
  them; they are taken to return without raising.

  Objects are shared by reference: the problem's \<open>components\<close> and \<open>fuelcases\<close> hold
  addresses, and the two heaps give the object at an address.
\<close>

type_synonym addr = nat

record 'a Component =
  comp_name :: string
  compType :: string
  comp_DVs :: "(string \<times> 'a fuelCaseDV) list"

record 'a WeightProblem =
  wp_name :: string
  units :: string
  components :: "(string \<times> addr) list"
  fuelcases :: "addr list"
  currentDVs :: "(string \<times> 'a) list"
  solveFailed :: bool
  evalFuncs :: "string set"

record ('a, 'z) world =
  prob :: "'a WeightProblem"
  compHeap :: "addr \<Rightarrow> ('a, 'z) Component_scheme"
  caseHeap :: "addr \<Rightarrow> 'a FuelCase"

definition WeightProblem_init :: "string \<Rightarrow> string \<Rightarrow> string list option \<Rightarrow> 'a WeightProblem" where
  "WeightProblem_init nm un ef =
     \<lparr>wp_name = nm, units = py_lower un, components = [], fuelcases = [], currentDVs = [],
      solveFailed = False, evalFuncs = (case ef of None \<Rightarrow> {} | Some fs \<Rightarrow> set fs)\<rparr>"

text \<open>
  The argument of \<open>addComponents\<close> and \<open>addFuelCases\<close>, by its Python type. The
  docstrings ask for a list of entities; the argument is such a \<open>list\<close>, one entity
  (an instance of a component class or of \<open>FuelCase\<close>), or a value of another type
  that is no entity (a tuple, a string, \<open>None\<close>, ...). The test \<open>type(x) == list\<close>
  holds for a list only. The test \<open>type(x) == object\<close> holds for none of these values:
  the type of an entity is its own class, which is a subclass of \<open>object\<close> and not
  \<open>object\<close> itself.
\<close>

datatype pyarg = ArgList "addr list" | ArgEntity addr | ArgOther

fun type_is_list :: "pyarg \<Rightarrow> bool" where
  "type_is_list (ArgList xs) = True"
| "type_is_list (ArgEntity a) = False"
| "type_is_list ArgOther = False"

fun type_is_object :: "pyarg \<Rightarrow> bool" where
  "type_is_object (ArgList xs) = False"
| "type_is_object (ArgEntity a) = False"
| "type_is_object ArgOther = False"

text \<open>
  The list the loop runs over: the argument itself when it is a list, and the one-element
  list \<open>[x]\<close> that the \<open>elif\<close> branch builds from a single argument.
\<close>

fun list_items :: "pyarg \<Rightarrow> addr list" where
  "list_items (ArgList xs) = xs"
| "list_items (ArgEntity a) = [a]"
| "list_items ArgOther = []"

text \<open>The inner loop of both registration calls: \<open>self.currentDVs[name_dvName] = DVs[dvName].value\<close>.\<close>

definition register_DVs ::
  "string \<Rightarrow> (string \<times> 'a fuelCaseDV) list \<Rightarrow> (string \<times> 'a) list \<Rightarrow> (string \<times> 'a) list" where
  "register_DVs nm dvs cur =
     fold (\<lambda>(dvName, dv) cur'. dict_set cur' (nm @ ''_'' @ dvName) (dv_value dv))
          (dict_items dvs) cur"

fun addComponents_loop ::
  "(string \<Rightarrow> ('a, 'z) Component_scheme \<Rightarrow> ('a, 'z) Component_scheme) \<Rightarrow>
   addr list \<Rightarrow> ('a, 'z) world \<Rightarrow> ('a, 'z) world" where
  "addComponents_loop setUnitSystem [] w = w"
| "addComponents_loop setUnitSystem (a # as) w =
     (let comp = setUnitSystem (units (prob w)) (compHeap w a);
          p = prob w;
          p1 = p\<lparr>components := dict_set (components p) (comp_name comp) a\<rparr>;
          p2 = p1\<lparr>currentDVs := register_DVs (wp_name p1) (comp_DVs comp) (currentDVs p1)\<rparr>
      in addComponents_loop setUnitSystem as
           (w\<lparr>prob := p2, compHeap := (compHeap w)(a := comp)\<rparr>))"

definition addComponents ::
  "(string \<Rightarrow> ('a, 'z) Component_scheme \<Rightarrow> ('a, 'z) Component_scheme) \<Rightarrow>
   pyarg \<Rightarrow> ('a, 'z) world \<Rightarrow> ('a, 'z) world outcome" where
  "addComponents setUnitSystem arg w =
     (if type_is_list arg then Returned (addComponents_loop setUnitSystem (list_items arg) w)
      else if type_is_object arg
      then Returned (addComponents_loop setUnitSystem (list_items arg) w)
      else Raised (Error ''addComponents() takes in either a list of or a single component'') w)"

fun addFuelCases_loop :: "addr list \<Rightarrow> ('a, 'z) world \<Rightarrow> ('a, 'z) world" where
  "addFuelCases_loop [] w = w"
| "addFuelCases_loop (a # as) w =
     (let p = prob w;
          p1 = p\<lparr>fuelcases := fuelcases p @ [a]\<rparr>;
          p2 = p1\<lparr>currentDVs := register_DVs (wp_name p1) (DVs (caseHeap w a)) (currentDVs p1)\<rparr>
      in addFuelCases_loop as (w\<lparr>prob := p2\<rparr>))"

definition addFuelCases :: "pyarg \<Rightarrow> ('a, 'z) world \<Rightarrow> ('a, 'z) world outcome" where
  "addFuelCases arg w =
     (if type_is_list arg then Returned (addFuelCases_loop (list_items arg) w)
      else if type_is_object arg then Returned (addFuelCases_loop (list_items arg) w)
      else Raised (Error ''addFuelCases() takes in either a list of or a single fuelcase'') w)"

text \<open>
  \<open>WeightProblem.setDesignVars(x)\<close>. The component part: for every component and
  every key of its \<open>DVs\<close> (the keys read when the inner loop starts), a value found in
  \<open>x\<close> is handed to the component and stored in \<open>currentDVs\<close>.
\<close>

definition setDesignVars_comp_keys ::
  "((string \<times> 'a) list \<Rightarrow> ('a, 'z) Component_scheme \<Rightarrow> ('a, 'z) Component_scheme) \<Rightarrow>
   (string \<times> 'a) list \<Rightarrow> addr \<Rightarrow> string list \<Rightarrow> ('a, 'z) world \<Rightarrow> ('a, 'z) world" where
  "setDesignVars_comp_keys compSetDesignVars x a ks w0 =
     fold (\<lambda>k w.
             let dvName = wp_name (prob w) @ ''_'' @ k
             in case dict_get x dvName of
                  None \<Rightarrow> w
                | Some v \<Rightarrow>
                    w\<lparr>prob := (prob w)\<lparr>currentDVs := dict_set (currentDVs (prob w)) dvName v\<rparr>,
                      compHeap := (compHeap w)(a := compSetDesignVars [(k, v)] (compHeap w a))\<rparr>)
          ks w0"

definition setDesignVars_comps ::
  "((string \<times> 'a) list \<Rightarrow> ('a, 'z) Component_scheme \<Rightarrow> ('a, 'z) Component_scheme) \<Rightarrow>
   (string \<times> 'a) list \<Rightarrow> ('a, 'z) world \<Rightarrow> ('a, 'z) world" where
  "setDesignVars_comps compSetDesignVars x w0 =
     fold (\<lambda>(compKey, a) w.
             setDesignVars_comp_keys compSetDesignVars x a (dict_keys (comp_DVs (compHeap w a))) w)
          (dict_items (components (prob w0))) w0"

text \<open>
  The fuel case part: \<open>case.setDesignVars({key: x[dvName]})\<close> is called on the object
  at the address, then \<open>currentDVs\<close> is written.
\<close>

fun setDesignVars_case_keys ::
  "(string \<times> 'a::plus) list \<Rightarrow> addr \<Rightarrow> string list \<Rightarrow> ('a, 'z) world \<Rightarrow> ('a, 'z) world outcome" where
  "setDesignVars_case_keys x a [] w = Returned w"
| "setDesignVars_case_keys x a (k # ks) w =
     (let dvName = wp_name (prob w) @ ''_'' @ k
      in case dict_get x dvName of
           None \<Rightarrow> setDesignVars_case_keys x a ks w
         | Some v \<Rightarrow>
             (case FuelCase_setDesignVars [(k, v)] (caseHeap w a) of
                Raised e c' \<Rightarrow> Raised e (w\<lparr>caseHeap := (caseHeap w)(a := c')\<rparr>)
              | Returned c' \<Rightarrow>
                  setDesignVars_case_keys x a ks
                    (w\<lparr>prob := (prob w)\<lparr>currentDVs := dict_set (currentDVs (prob w)) dvName v\<rparr>,
                       caseHeap := (caseHeap w)(a := c')\<rparr>)))"

fun setDesignVars_cases ::
  "(string \<times> 'a::plus) list \<Rightarrow> addr list \<Rightarrow> ('a, 'z) world \<Rightarrow> ('a, 'z) world outcome" where
  "setDesignVars_cases x [] w = Returned w"
| "setDesignVars_cases x (a # as) w =
     (case setDesignVars_case_keys x a (dict_keys (DVs (caseHeap w a))) w of
        Raised e w' \<Rightarrow> Raised e w'
      | Returned w' \<Rightarrow> setDesignVars_cases x as w')"

definition setDesignVars ::
  "((string \<times> 'a) list \<Rightarrow> ('a, 'z) Component_scheme \<Rightarrow> ('a, 'z) Component_scheme) \<Rightarrow>
   (string \<times> 'a::plus) list \<Rightarrow> ('a, 'z) world \<Rightarrow> ('a, 'z) world outcome" where
  "setDesignVars compSetDesignVars x w =
     (let w1 = setDesignVars_comps compSetDesignVars x w
      in setDesignVars_cases x (fuelcases (prob w1)) w1)"

text \<open>\<open>addVariablesPyOpt\<close>, \<open>getVarNames\<close> and \<open>addConstraintsPyOpt\<close>.\<close>

definition addVariables_DVs ::
  "string \<Rightarrow> (string \<times> 'a fuelCaseDV) list \<Rightarrow> 'a optProb \<Rightarrow> 'a optProb" where
  "addVariables_DVs nm dvs op0 =
     fold (\<lambda>(k, dv) op.
             if dv_addToPyOpt dv
             then addVar \<lparr>var_name = nm @ ''_'' @ k, var_type = ''c'', var_value = dv_value dv,
                          var_lower = dv_lower dv, var_upper = dv_upper dv,
                          var_scale = dv_scale dv\<rparr> op
             else op)
          (dict_items dvs) op0"

definition addVariablesPyOpt :: "('a, 'z) world \<Rightarrow> 'a optProb \<Rightarrow> 'a optProb" where
  "addVariablesPyOpt w op0 =
     (let op1 = fold (\<lambda>(compKey, a) op.
                        addVariables_DVs (wp_name (prob w)) (comp_DVs (compHeap w a)) op)
                     (dict_items (components (prob w))) op0
      in fold (\<lambda>a op. addVariables_DVs (wp_name (prob w)) (DVs (caseHeap w a)) op)
              (fuelcases (prob w)) op1)"

definition varNames :: "string \<Rightarrow> (string \<times> 'v) list \<Rightarrow> string list" where
  "varNames nm dvs = map (\<lambda>k. nm @ ''_'' @ k) (dict_keys dvs)"

definition getVarNames :: "('a, 'z) world \<Rightarrow> string list" where
  "getVarNames w =
     concat (map (\<lambda>(compKey, a). varNames (wp_name (prob w)) (comp_DVs (compHeap w a)))
                 (dict_items (components (prob w))))
     @ concat (map (\<lambda>a. varNames (wp_name (prob w)) (DVs (caseHeap w a)))
                   (fuelcases (prob w)))"

definition addConstraintsPyOpt ::
  "('a::{zero,one,minus}, 'z) world \<Rightarrow> 'a optProb \<Rightarrow> 'a optProb" where
  "addConstraintsPyOpt w op0 =
     fold (\<lambda>a op. addLinearConstraint (caseHeap w a) op (wp_name (prob w)))
          (fuelcases (prob w)) op0"

subsection \<open>Selecting component keys\<close>

text \<open>
  A filter argument of \<open>_getComponentKeys\<close> is a \<open>str\<close> or a collection of strings;
  \<open>None\<close> is the absent option. A Python \<open>set\<close> of keys is a list without
  repetitions, in the order a loop over it visits; the function returns the set of
  its elements.
\<close>

datatype strs = Str string | Strs "string list"

definition as_list :: "strs \<Rightarrow> string list" where
  "as_list f = (case f of Str s \<Rightarrow> [s] | Strs ss \<Rightarrow> ss)"

definition py_set :: "'k list \<Rightarrow> 'k list" where
  "py_set xs = remdups xs"

definition set_add :: "'k \<Rightarrow> 'k list \<Rightarrow> 'k list" where
  "set_add k s = (if k \<in> set s then s else s @ [k])"

definition compType_of :: "('a, 'z) world \<Rightarrow> string \<Rightarrow> error + string" where
  "compType_of w k =
     (case dict_get (components (prob w)) k of
        None \<Rightarrow> Inl (KeyError k)
      | Some a \<Rightarrow> Inr (compType (compHeap w a)))"

fun includeType_loop ::
  "('a, 'z) world \<Rightarrow> string list \<Rightarrow> string list \<Rightarrow> string list \<Rightarrow> error + string list" where
  "includeType_loop w tys [] tmp = Inr tmp"
| "includeType_loop w tys (k # ks) tmp =
     (case compType_of w k of
        Inl e \<Rightarrow> Inl e
      | Inr t \<Rightarrow> includeType_loop w tys ks (if t \<in> set tys then set_add k tmp else tmp))"

fun excludeType_loop ::
  "('a, 'z) world \<Rightarrow> string list \<Rightarrow> string list \<Rightarrow> string list \<Rightarrow> error + string list" where
  "excludeType_loop w tys [] tmp = Inr tmp"
| "excludeType_loop w tys (k # ks) tmp =
     (case compType_of w k of
        Inl e \<Rightarrow> Inl e
      | Inr t \<Rightarrow>
          if t \<in> set tys
          then (if k \<in> set tmp then excludeType_loop w tys ks (removeAll k tmp)
                else Inl (KeyError k))
          else excludeType_loop w tys ks tmp)"

text \<open>The four filters, in the order the function applies them.\<close>

definition filter_includeType ::
  "('a, 'z) world \<Rightarrow> strs option \<Rightarrow> string list \<Rightarrow> error + string list" where
  "filter_includeType w includeType weightKeys =
     (case includeType of
        None \<Rightarrow> Inr weightKeys
      | Some f \<Rightarrow> includeType_loop w (as_list f) weightKeys [])"

definition filter_include :: "strs option \<Rightarrow> string list \<Rightarrow> string list" where
  "filter_include include weightKeys =
     (case include of
        None \<Rightarrow> weightKeys
      | Some f \<Rightarrow> filter (\<lambda>k. k \<in> set (py_set (as_list f))) weightKeys)"

definition filter_exclude :: "strs option \<Rightarrow> string list \<Rightarrow> string list" where
  "filter_exclude exclude weightKeys =
     (case exclude of
        None \<Rightarrow> weightKeys
      | Some f \<Rightarrow> filter (\<lambda>k. k \<notin> set (py_set (as_list f))) weightKeys)"

definition filter_excludeType ::
  "('a, 'z) world \<Rightarrow> strs option \<Rightarrow> string list \<Rightarrow> error + string list" where
  "filter_excludeType w excludeType weightKeys =
     (case excludeType of
        None \<Rightarrow> Inr weightKeys
      | Some f \<Rightarrow> excludeType_loop w (as_list f) weightKeys weightKeys)"

definition getComponentKeys ::
  "('a, 'z) world \<Rightarrow> strs option \<Rightarrow> strs option \<Rightarrow> strs option \<Rightarrow> strs option \<Rightarrow>
   error + string set" where
  "getComponentKeys w include exclude includeType excludeType =
     (case filter_includeType w includeType (py_set (dict_keys (components (prob w)))) of
        Inl e \<Rightarrow> Inl e
      | Inr weightKeys1 \<Rightarrow>
          (case filter_excludeType w excludeType
                  (filter_exclude exclude (filter_include include weightKeys1)) of
             Inl e \<Rightarrow> Inl e
           | Inr weightKeys4 \<Rightarrow> Inr (set weightKeys4)))"

text \<open>
  The selection as the specification words it, on sets: start from all registered
  names; \<open>includeType\<close> narrows to the components whose \<open>compType\<close> is listed,
  \<open>include\<close> intersects, \<open>exclude\<close> subtracts, \<open>excludeType\<close> removes the components
  whose \<open>compType\<close> is listed.
\<close>

definition keys_of_type :: "('a, 'z) world \<Rightarrow> string list \<Rightarrow> string set" where
  "keys_of_type w tys =
     set (map fst (filter (\<lambda>(k, a). compType (compHeap w a) \<in> set tys)
                          (dict_items (components (prob w)))))"

definition selectComponentKeys_spec ::
  "('a, 'z) world \<Rightarrow> strs option \<Rightarrow> strs option \<Rightarrow> strs option \<Rightarrow> strs option \<Rightarrow>
   string set" where
  "selectComponentKeys_spec w include exclude includeType excludeType =
     (let s0 = set (dict_keys (components (prob w)));
          s1 = (case includeType of None \<Rightarrow> s0 | Some f \<Rightarrow> s0 \<inter> keys_of_type w (as_list f));
          s2 = (case include of None \<Rightarrow> s1 | Some f \<Rightarrow> s1 \<inter> set (as_list f));
          s3 = (case exclude of None \<Rightarrow> s2 | Some f \<Rightarrow> s2 - set (as_list f))
      in case excludeType of None \<Rightarrow> s3 | Some f \<Rightarrow> s3 - keys_of_type w (as_list f))"

section \<open>Notions used in the statements\<close>

text \<open>
  The arguments of one \<open>addDV\<close> call, and the case after a sequence of calls made one
  after the other (a call that raises leaves the case as it was).
\<close>

record 'a addDV_args =
  arg_key :: string
  arg_value :: "'a option"
  arg_lower :: "'a option"
  arg_upper :: "'a option"
  arg_scale :: 'a
  arg_name :: "string option"
  arg_offset :: 'a
  arg_axis :: "string option"
  arg_addToPyOpt :: bool

definition addDV_call :: "'a addDV_args \<Rightarrow> 'a FuelCase \<Rightarrow> 'a FuelCase outcome" where
  "addDV_call a c =
     addDV (arg_key a) (arg_value a) (arg_lower a) (arg_upper a) (arg_scale a) (arg_name a)
       (arg_offset a) (arg_axis a) (arg_addToPyOpt a) c"

definition addDV_calls :: "'a addDV_args list \<Rightarrow> 'a FuelCase \<Rightarrow> 'a FuelCase" where
  "addDV_calls calls c = fold (\<lambda>a c'. state_of (addDV_call a c')) calls c"

text \<open>
  \<open>dv_registered c k dn off\<close>: the current registration of key \<open>k\<close> in the case is the
  variable named \<open>dn\<close> (\<open>DVNames[k] == dn\<close>), and \<open>DVs[dn]\<close> has offset \<open>off\<close>.
  \<open>dv_applied c k dn off v\<close>: moreover the attribute \<open>k\<close> of the case is \<open>v + off\<close> and
  \<open>DVs[dn].value\<close> is \<open>v\<close>.
\<close>

definition dv_registered :: "'a FuelCase \<Rightarrow> string \<Rightarrow> string \<Rightarrow> 'a \<Rightarrow> bool" where
  "dv_registered c k dn off =
     (dict_get (DVNames c) k = Some dn \<and>
      (case dict_get (DVs c) dn of None \<Rightarrow> False | Some dv \<Rightarrow> dv_offset dv = off))"

definition dv_applied :: "'a::plus FuelCase \<Rightarrow> string \<Rightarrow> string \<Rightarrow> 'a \<Rightarrow> 'a \<Rightarrow> bool" where
  "dv_applied c k dn off v =
     (dv_registered c k dn off \<and> getattr_fc c k = Some (v + off) \<and>
      (case dict_get (DVs c) dn of None \<Rightarrow> False | Some dv \<Rightarrow> dv_value dv = v))"

section \<open>Properties of FuelCase.addDV\<close>

lemma getattr_fc_possibleDVs:
  "k \<in> set possibleDVs \<Longrightarrow> \<exists>v. getattr_fc c k = Some v"
  by (auto simp: possibleDVs_def getattr_fc_def)

lemma addDV_returns:
  assumes "k \<in> set possibleDVs"
  shows "\<exists>c'. addDV k val lo up sc nm off axis add c = Returned c'"
proof (cases val)
  case None
  from getattr_fc_possibleDVs [OF assms, of c] obtain v where "getattr_fc c k = Some v" ..
  with assms None show ?thesis
    by (simp add: addDV_def Let_def)
next
  case (Some v)
  with assms show ?thesis
    by (simp add: addDV_def Let_def)
qed

lemma sublist_middle: "m = ps @ k @ ss \<Longrightarrow> sublist k m"
  by simp

text \<open>
  Claim C3. \<open>addDV\<close> raises the module's \<open>Error\<close> exactly when the key is not one of
  \<open>fuelFraction\<close>, \<open>reserveFraction\<close>. The message handed to \<open>Error\<close> contains the
  offending key and the \<open>repr\<close> of the whitelist, and the case is left as it was (the
  test is the first statement, so \<open>DVs\<close> and \<open>DVNames\<close> are untouched). With a
  whitelisted key the call returns without raising.
\<close>

theorem addDV_whitelist:
  "set possibleDVs = {''fuelFraction'', ''reserveFraction''} \<and>
   (k \<notin> set possibleDVs \<longrightarrow>
      addDV k val lo up sc nm off axis add c = Raised (Error (addDV_message k)) c \<and>
      sublist k (addDV_message k) \<and>
      sublist (repr_list possibleDVs) (addDV_message k) \<and>
      DVs (state_of (addDV k val lo up sc nm off axis add c)) = DVs c \<and>
      DVNames (state_of (addDV k val lo up sc nm off axis add c)) = DVNames c) \<and>
   (k \<in> set possibleDVs \<longrightarrow> raised (addDV k val lo up sc nm off axis add c) = None)"
proof (intro conjI impI)
  show "set possibleDVs = {''fuelFraction'', ''reserveFraction''}"
    by (simp add: possibleDVs_def)
next
  assume "k \<notin> set possibleDVs"
  then show "addDV k val lo up sc nm off axis add c = Raised (Error (addDV_message k)) c"
    by (simp add: addDV_def)
  then show "DVs (state_of (addDV k val lo up sc nm off axis add c)) = DVs c"
    and "DVNames (state_of (addDV k val lo up sc nm off axis add c)) = DVNames c"
    by simp_all
next
  have "addDV_message k = (''The DV '' @ [CHR 0x27]) @ k @ ([CHR 0x27] @
     '' could not be added.  The list of possible DVs are: '' @ repr_list possibleDVs @ ''.'')"
    by (simp add: addDV_message_def)
  then show "sublist k (addDV_message k)"
    by (rule sublist_middle)
next
  have "addDV_message k = (''The DV '' @ [CHR 0x27] @ k @ [CHR 0x27] @
     '' could not be added.  The list of possible DVs are: '') @ repr_list possibleDVs @ ''.''"
    by (simp add: addDV_message_def)
  then show "sublist (repr_list possibleDVs) (addDV_message k)"
    by (rule sublist_middle)
next
  assume "k \<in> set possibleDVs"
  then obtain c' where "addDV k val lo up sc nm off axis add c = Returned c'"
    using addDV_returns [of k val lo up sc nm off axis add c] by auto
  then show "raised (addDV k val lo up sc nm off axis add c) = None"
    by simp
qed

text \<open>
  The test of the specification: \<open>thrust\<close> is rejected on a fresh case and the case is
  returned unchanged; \<open>fuelFraction\<close> is accepted.
\<close>

theorem addDV_whitelist_witness:
  "addDV ''thrust'' None None None (1::int) None 0 None True (FuelCase_init ''cruise'' 9 1)
     = Raised (Error (addDV_message ''thrust'')) (FuelCase_init ''cruise'' 9 1) \<and>
   raised (addDV ''fuelFraction'' None None None (1::int) None 0 None True
            (FuelCase_init ''cruise'' 9 1)) = None"
proof -
  have no: "''thrust'' \<notin> set possibleDVs"
    by (simp add: possibleDVs_def)
  have yes: "''fuelFraction'' \<in> set possibleDVs"
    by (simp add: possibleDVs_def)
  show ?thesis
    using no yes
      addDV_whitelist [of "''thrust''" None None None "1::int" None 0 None True
          "FuelCase_init ''cruise'' 9 1"]
      addDV_whitelist [of "''fuelFraction''" None None None "1::int" None 0 None True
          "FuelCase_init ''cruise'' 9 1"]
    by blast
qed

section \<open>Properties of FuelCase.addLinearConstraint\<close>

lemma py_lower_fuelFraction: "py_lower ''fuelFraction'' = ''fuelfraction''"
  by (simp add: py_lower_def lower_char_def)

lemma py_lower_reserveFraction: "py_lower ''reserveFraction'' = ''reservefraction''"
  by (simp add: py_lower_def lower_char_def)

lemma flags_fold:
  "fold (\<lambda>k (reserveDV, fuelDV).
             (if py_lower k = ''reservefraction'' then True else reserveDV,
              if py_lower k = ''fuelfraction'' then True else fuelDV)) ks (r, f)
   = (r \<or> (\<exists>k\<in>set ks. py_lower k = ''reservefraction''),
      f \<or> (\<exists>k\<in>set ks. py_lower k = ''fuelfraction''))"
  by (induction ks arbitrary: r f) auto

lemma linearConstraint_flags_eq:
  "linearConstraint_flags ks =
     ((\<exists>k\<in>set ks. py_lower k = ''reservefraction''), (\<exists>k\<in>set ks. py_lower k = ''fuelfraction''))"
  by (simp add: linearConstraint_flags_def flags_fold)

lemma linearConstraint_flags_wf:
  assumes "set ks \<subseteq> set possibleDVs"
  shows "linearConstraint_flags ks = (''reserveFraction'' \<in> set ks, ''fuelFraction'' \<in> set ks)"
proof -
  have r: "(\<exists>k\<in>set ks. py_lower k = ''reservefraction'') = (''reserveFraction'' \<in> set ks)"
  proof
    assume "\<exists>k\<in>set ks. py_lower k = ''reservefraction''"
    then obtain k where k: "k \<in> set ks" "py_lower k = ''reservefraction''" by auto
    with assms have "k = ''fuelFraction'' \<or> k = ''reserveFraction''"
      by (auto simp: possibleDVs_def)
    with k show "''reserveFraction'' \<in> set ks"
      by (auto simp: py_lower_fuelFraction)
  next
    assume "''reserveFraction'' \<in> set ks"
    then show "\<exists>k\<in>set ks. py_lower k = ''reservefraction''"
      using py_lower_reserveFraction by auto
  qed
  have f: "(\<exists>k\<in>set ks. py_lower k = ''fuelfraction'') = (''fuelFraction'' \<in> set ks)"
  proof
    assume "\<exists>k\<in>set ks. py_lower k = ''fuelfraction''"
    then obtain k where k: "k \<in> set ks" "py_lower k = ''fuelfraction''" by auto
    with assms have "k = ''fuelFraction'' \<or> k = ''reserveFraction''"
      by (auto simp: possibleDVs_def)
    with k show "''fuelFraction'' \<in> set ks"
      by (auto simp: py_lower_reserveFraction)
  next
    assume "''fuelFraction'' \<in> set ks"
    then show "\<exists>k\<in>set ks. py_lower k = ''fuelfraction''"
      using py_lower_fuelFraction by auto
  qed
  show ?thesis
    by (simp add: linearConstraint_flags_eq r f)
qed


lemma jac_two:
  "dict_set (dict_set [] (p @ ''_fuelFraction'') a) (p @ ''_reserveFraction'') b
     = [(p @ ''_fuelFraction'', a), (p @ ''_reserveFraction'', b)]"
  by (simp add: dict_set_def)

text \<open>
  With both keys in \<open>DVNames\<close> the first branch is taken: one constraint is added, with
  bounds 0 and 1, whose \<open>wrt\<close> list and Jacobian name the two strings
  \<open>prefix_case_fuelFraction\<close> and \<open>prefix_case_reserveFraction\<close>.
\<close>

lemma both_fractions_constraint:
  assumes "''fuelFraction'' \<in> set (dict_keys (DVNames c))"
    and "''reserveFraction'' \<in> set (dict_keys (DVNames c))"
  shows "addLinearConstraint c op pfx =
           op\<lparr>optCons := optCons op @
              [\<lparr>con_name = pfx @ ''_'' @ fc_name c @ ''_fuelcase'',
                con_lower = 0, con_upper = 1, con_scale = 1, con_linear = True,
                con_wrt = [pfx @ ''_'' @ fc_name c @ ''_fuelFraction'',
                           pfx @ ''_'' @ fc_name c @ ''_reserveFraction''],
                con_jac = [(pfx @ ''_'' @ fc_name c @ ''_fuelFraction'', [[1]]),
                           (pfx @ ''_'' @ fc_name c @ ''_reserveFraction'', [[1]])]\<rparr>]\<rparr>"
proof -
  have "linearConstraint_flags (dict_keys (DVNames c)) = (True, True)"
    using assms py_lower_fuelFraction py_lower_reserveFraction
    by (auto simp: linearConstraint_flags_eq)
  moreover have "dict_set (dict_set [] (pfx @ ''_'' @ fc_name c @ ''_fuelFraction'') [[1::'a]])
                    (pfx @ ''_'' @ fc_name c @ ''_reserveFraction'') [[1::'a]]
                 = [(pfx @ ''_'' @ fc_name c @ ''_fuelFraction'', [[1]]),
                    (pfx @ ''_'' @ fc_name c @ ''_reserveFraction'', [[1]])]"
    using jac_two [of "pfx @ ''_'' @ fc_name c" "[[1::'a]]" "[[1::'a]]"] by simp
  ultimately show ?thesis
    by (simp add: addLinearConstraint_def addCon_def Let_def)
qed

text \<open>
  On a well-formed case with one key in \<open>DVNames\<close> the matching \<open>elif\<close> branch is taken,
  with upper bound 1 minus the other attribute; with no key nothing is added.
\<close>

lemma one_or_no_fraction_constraint:
  assumes "wf_case c"
  shows "(''reserveFraction'' \<in> set (dict_keys (DVNames c)) \<and>
          ''fuelFraction'' \<notin> set (dict_keys (DVNames c)) \<longrightarrow>
            addLinearConstraint c op pfx =
              op\<lparr>optCons := optCons op @
                 [\<lparr>con_name = pfx @ ''_'' @ fc_name c @ ''_fuelcase'',
                   con_lower = 0, con_upper = 1 - fuelFraction c, con_scale = 1,
                   con_linear = True,
                   con_wrt = [pfx @ ''_'' @ fc_name c @ ''_reserveFraction''],
                   con_jac = [(pfx @ ''_'' @ fc_name c @ ''_reserveFraction'', [[1]])]\<rparr>]\<rparr>) \<and>
         (''fuelFraction'' \<in> set (dict_keys (DVNames c)) \<and>
          ''reserveFraction'' \<notin> set (dict_keys (DVNames c)) \<longrightarrow>
            addLinearConstraint c op pfx =
              op\<lparr>optCons := optCons op @
                 [\<lparr>con_name = pfx @ ''_'' @ fc_name c @ ''_fuelcase'',
                   con_lower = 0, con_upper = 1 - reserveFraction c, con_scale = 1,
                   con_linear = True,
                   con_wrt = [pfx @ ''_'' @ fc_name c @ ''_fuelFraction''],
                   con_jac = [(pfx @ ''_'' @ fc_name c @ ''_fuelFraction'', [[1]])]\<rparr>]\<rparr>) \<and>
         (''fuelFraction'' \<notin> set (dict_keys (DVNames c)) \<and>
          ''reserveFraction'' \<notin> set (dict_keys (DVNames c)) \<longrightarrow>
            addLinearConstraint c op pfx = op)"
proof -
  have fl: "linearConstraint_flags (dict_keys (DVNames c)) =
              (''reserveFraction'' \<in> set (dict_keys (DVNames c)),
               ''fuelFraction'' \<in> set (dict_keys (DVNames c)))"
    using assms by (simp add: wf_case_def linearConstraint_flags_wf)
  show ?thesis
    by (simp add: addLinearConstraint_def addCon_def fl dict_set_def Let_def)
qed


text \<open>
  Both fractions registered under their default names: the two strings are the names of
  the two variables.
\<close>

lemma default_names_both_fractions:
  "optCons (addLinearConstraint
      (state_of (addDV ''reserveFraction'' None None None 1 None 0 None True
         (state_of (addDV ''fuelFraction'' None None None 1 None 0 None True
            (FuelCase_init ''cruise'' (9 / 10 :: real) (1 / 10))))))
      \<lparr>optVars = [], optCons = []\<rparr> ''wp'')
   = [\<lparr>con_name = ''wp_cruise_fuelcase'', con_lower = 0, con_upper = 1, con_scale = 1,
       con_linear = True,
       con_wrt = [''wp_cruise_fuelFraction'', ''wp_cruise_reserveFraction''],
       con_jac = [(''wp_cruise_fuelFraction'', [[1]]),
                  (''wp_cruise_reserveFraction'', [[1]])]\<rparr>]"
proof -
  define c where "c = state_of (addDV ''reserveFraction'' None None None 1 None 0 None True
         (state_of (addDV ''fuelFraction'' None None None 1 None 0 None True
            (FuelCase_init ''cruise'' (9 / 10 :: real) (1 / 10)))))"
  have keys: "dict_keys (DVNames c) = [''fuelFraction'', ''reserveFraction'']"
    and nm: "fc_name c = ''cruise''"
    by (simp_all add: c_def addDV_def addDV_name_def possibleDVs_def getattr_fc_def
          FuelCase_init_def dict_set_def dict_keys_def Let_def)
  have "''fuelFraction'' \<in> set (dict_keys (DVNames c))"
    and "''reserveFraction'' \<in> set (dict_keys (DVNames c))"
    by (simp_all add: keys)
  from both_fractions_constraint [OF this, of "\<lparr>optVars = [], optCons = []\<rparr>" "''wp''"]
  show ?thesis
    by (simp add: nm c_def [symmetric])
qed


text \<open>
  One fraction registered under its default name (\<open>fuelFraction = 0.9\<close> fixed gives
  the upper bound \<open>0.1\<close> on the reserve variable), and none registered.
\<close>

lemma default_names_one_or_no_fraction:
  "optCons (addLinearConstraint
      (state_of (addDV ''reserveFraction'' None None None 1 None 0 None True
            (FuelCase_init ''cruise'' (9 / 10 :: real) (1 / 10))))
      \<lparr>optVars = [], optCons = []\<rparr> ''wp'')
   = [\<lparr>con_name = ''wp_cruise_fuelcase'', con_lower = 0, con_upper = 1 / 10, con_scale = 1,
       con_linear = True, con_wrt = [''wp_cruise_reserveFraction''],
       con_jac = [(''wp_cruise_reserveFraction'', [[1]])]\<rparr>] \<and>
   optCons (addLinearConstraint
      (state_of (addDV ''fuelFraction'' None None None 1 None 0 None True
            (FuelCase_init ''cruise'' (9 / 10 :: real) (1 / 10))))
      \<lparr>optVars = [], optCons = []\<rparr> ''wp'')
   = [\<lparr>con_name = ''wp_cruise_fuelcase'', con_lower = 0, con_upper = 9 / 10, con_scale = 1,
       con_linear = True, con_wrt = [''wp_cruise_fuelFraction''],
       con_jac = [(''wp_cruise_fuelFraction'', [[1]])]\<rparr>] \<and>
   optCons (addLinearConstraint (FuelCase_init ''cruise'' (9 / 10 :: real) (1 / 10))
      \<lparr>optVars = [], optCons = []\<rparr> ''wp'') = []"
proof -
  define c0 where "c0 = FuelCase_init ''cruise'' (9 / 10 :: real) (1 / 10)"
  define cr where "cr = state_of (addDV ''reserveFraction'' None None None 1 None 0 None True c0)"
  define cf where "cf = state_of (addDV ''fuelFraction'' None None None 1 None 0 None True c0)"
  have k0: "dict_keys (DVNames c0) = []" and n0: "fc_name c0 = ''cruise''"
    by (simp_all add: c0_def FuelCase_init_def dict_keys_def)
  have kr: "dict_keys (DVNames cr) = [''reserveFraction'']" and nr: "fc_name cr = ''cruise''"
    and fr: "fuelFraction cr = 9 / 10"
    by (simp_all add: cr_def c0_def addDV_def addDV_name_def possibleDVs_def getattr_fc_def
          FuelCase_init_def dict_set_def dict_keys_def Let_def)
  have kf: "dict_keys (DVNames cf) = [''fuelFraction'']" and nf: "fc_name cf = ''cruise''"
    and rf: "reserveFraction cf = 1 / 10"
    by (simp_all add: cf_def c0_def addDV_def addDV_name_def possibleDVs_def getattr_fc_def
          FuelCase_init_def dict_set_def dict_keys_def Let_def)
  have w0: "wf_case c0" and wr: "wf_case cr" and wf: "wf_case cf"
    by (simp_all add: wf_case_def k0 kr kf possibleDVs_def)
  show ?thesis
    using one_or_no_fraction_constraint [OF w0, of "\<lparr>optVars = [], optCons = []\<rparr>" "''wp''"]
      one_or_no_fraction_constraint [OF wr, of "\<lparr>optVars = [], optCons = []\<rparr>" "''wp''"]
      one_or_no_fraction_constraint [OF wf, of "\<lparr>optVars = [], optCons = []\<rparr>" "''wp''"]
    by (simp add: k0 kr kf n0 nr nf fr rf c0_def [symmetric] cr_def [symmetric] cf_def [symmetric])
qed

lemma set_dict_keys_dict_set:
  "set (dict_keys (dict_set d k v)) = insert k (set (dict_keys d))"
  by (simp add: dict_keys_def dict_set_def dom_update)

lemma dict_keys_Nil: "dict_keys [] = []"
  by (simp add: dict_keys_def)

lemma wf_case_init: "wf_case (FuelCase_init n f r)"
  by (simp add: wf_case_def FuelCase_init_def dict_keys_Nil)

lemma addDV_state:
  assumes "k \<in> set possibleDVs"
  shows "\<exists>v. state_of (addDV k val lo up sc nm off axis add c) =
           c\<lparr>DVs := dict_set (DVs c) (addDV_name c k nm axis)
                       \<lparr>dv_key = k, dv_value = v, dv_lower = lo, dv_upper = up,
                        dv_scale = sc, dv_offset = off, dv_addToPyOpt = add\<rparr>,
             DVNames := dict_set (DVNames c) k (addDV_name c k nm axis)\<rparr>"
proof (cases val)
  case None
  from getattr_fc_possibleDVs [OF assms, of c] obtain v where "getattr_fc c k = Some v" ..
  with assms None show ?thesis
    by (intro exI [of _ v]) (simp add: addDV_def Let_def)
next
  case (Some v)
  with assms show ?thesis
    by (intro exI [of _ v]) (simp add: addDV_def Let_def)
qed

lemma wf_case_addDV:
  assumes "wf_case c"
  shows "wf_case (state_of (addDV k val lo up sc nm off axis add c))"
proof (cases "k \<in> set possibleDVs")
  case True
  from addDV_state [OF True, of val lo up sc nm off axis add c] obtain v where
    "state_of (addDV k val lo up sc nm off axis add c) =
           c\<lparr>DVs := dict_set (DVs c) (addDV_name c k nm axis)
                       \<lparr>dv_key = k, dv_value = v, dv_lower = lo, dv_upper = up,
                        dv_scale = sc, dv_offset = off, dv_addToPyOpt = add\<rparr>,
             DVNames := dict_set (DVNames c) k (addDV_name c k nm axis)\<rparr>" ..
  with assms True show ?thesis
    by (simp add: wf_case_def set_dict_keys_dict_set)
next
  case False
  with assms show ?thesis
    by (simp add: addDV_def)
qed

lemma varNames_mem:
  "(pfx @ ''_'' @ n \<in> set (varNames pfx dvs)) = (n \<in> set (dict_keys dvs))"
  by (auto simp: varNames_def)

lemma emitted_names:
  "optCons (addLinearConstraint c op pfx) = optCons op \<or>
   (\<exists>con. optCons (addLinearConstraint c op pfx) = optCons op @ [con] \<and>
          con_wrt con \<noteq> [] \<and>
          set (con_wrt con) \<subseteq> {pfx @ ''_'' @ fc_name c @ ''_fuelFraction'',
                                pfx @ ''_'' @ fc_name c @ ''_reserveFraction''} \<and>
          map fst (con_jac con) = con_wrt con)"
proof (cases "linearConstraint_flags (dict_keys (DVNames c))")
  case (Pair r f)
  then show ?thesis
    by (cases r; cases f) (simp_all add: addLinearConstraint_def addCon_def Let_def dict_set_def)
qed

lemma emitted_for_registered:
  assumes "wf_case c" and "k \<in> set (dict_keys (DVNames c))"
  shows "\<exists>con. optCons (addLinearConstraint c op pfx) = optCons op @ [con] \<and>
          pfx @ ''_'' @ fc_name c @ ''_'' @ k \<in> set (con_wrt con) \<and>
          map fst (con_jac con) = con_wrt con"
proof -
  have fl: "linearConstraint_flags (dict_keys (DVNames c)) =
              (''reserveFraction'' \<in> set (dict_keys (DVNames c)),
               ''fuelFraction'' \<in> set (dict_keys (DVNames c)))"
    using assms(1) by (simp add: wf_case_def linearConstraint_flags_wf)
  from assms have "k = ''fuelFraction'' \<or> k = ''reserveFraction''"
    by (auto simp: wf_case_def possibleDVs_def)
  with assms(2) show ?thesis
    by (auto simp: addLinearConstraint_def addCon_def Let_def dict_set_def fl)
qed


text \<open>
  Claim C4. The claim asks for coefficient 1 on each of the two fraction variables. The
  code puts it on the fixed strings above, and they are the variables only under
  default names. Here both fractions are registered with a \<open>name\<close> argument
  (\<open>shared\<close>, \<open>rsv\<close>) on the case \<open>cruise\<close> of the problem \<open>wp\<close>: the variables
  handed to the optimizer are \<open>wp_shared\<close> and \<open>wp_rsv\<close>, and the one constraint
  refers to \<open>wp_cruise_fuelFraction\<close> and \<open>wp_cruise_reserveFraction\<close>, neither of
  which is a variable. \<open>FuelCase.setDesignVars\<close> finds the variable of a key through
  \<open>DVNames[key]\<close>; \<open>addLinearConstraint\<close> loops over the same mapping and does not.
\<close>

theorem both_overridden_constraint_off_variables:
  "map var_name (optVars (addVariablesPyOpt
      (state_of (addFuelCases (ArgList [20])
         \<lparr>prob = WeightProblem_init ''wp'' ''SI'' None,
          compHeap = (\<lambda>a. \<lparr>comp_name = [], compType = [], comp_DVs = []\<rparr>),
          caseHeap = (\<lambda>a. state_of (addDV ''reserveFraction'' None None None 1 (Some ''rsv'') 0
                              None True
                        (state_of (addDV ''fuelFraction'' None None None 1 (Some ''shared'') 0
                              None True
                           (FuelCase_init ''cruise'' (9 / 10 :: real) (1 / 10))))))\<rparr>))
      \<lparr>optVars = [], optCons = []\<rparr>))
     = [''wp_shared'', ''wp_rsv''] \<and>
   optCons (addConstraintsPyOpt
      (state_of (addFuelCases (ArgList [20])
         \<lparr>prob = WeightProblem_init ''wp'' ''SI'' None,
          compHeap = (\<lambda>a. \<lparr>comp_name = [], compType = [], comp_DVs = []\<rparr>),
          caseHeap = (\<lambda>a. state_of (addDV ''reserveFraction'' None None None 1 (Some ''rsv'') 0
                              None True
                        (state_of (addDV ''fuelFraction'' None None None 1 (Some ''shared'') 0
                              None True
                           (FuelCase_init ''cruise'' (9 / 10 :: real) (1 / 10))))))\<rparr>))
      \<lparr>optVars = [], optCons = []\<rparr>)
     = [\<lparr>con_name = ''wp_cruise_fuelcase'', con_lower = 0, con_upper = 1, con_scale = 1,
         con_linear = True,
         con_wrt = [''wp_cruise_fuelFraction'', ''wp_cruise_reserveFraction''],
         con_jac = [(''wp_cruise_fuelFraction'', [[1]]),
                    (''wp_cruise_reserveFraction'', [[1]])]\<rparr>]"
proof -
  define c where "c = state_of (addDV ''reserveFraction'' None None None 1 (Some ''rsv'') 0
                              None True
                        (state_of (addDV ''fuelFraction'' None None None 1 (Some ''shared'') 0
                              None True
                           (FuelCase_init ''cruise'' (9 / 10 :: real) (1 / 10)))))"
  define w :: "(real, unit) world" where "w = state_of (addFuelCases (ArgList [20])
         \<lparr>prob = WeightProblem_init ''wp'' ''SI'' None,
          compHeap = (\<lambda>a. \<lparr>comp_name = [], compType = [], comp_DVs = []\<rparr>),
          caseHeap = (\<lambda>a. c)\<rparr>)"
  have c: "c = \<lparr>fc_name = ''cruise'', fuelFraction = 9 / 10, reserveFraction = 1 / 10,
      DVs = [(''shared'', \<lparr>dv_key = ''fuelFraction'', dv_value = 9 / 10, dv_lower = None,
                 dv_upper = None, dv_scale = 1, dv_offset = 0, dv_addToPyOpt = True\<rparr>),
             (''rsv'', \<lparr>dv_key = ''reserveFraction'', dv_value = 1 / 10, dv_lower = None,
                 dv_upper = None, dv_scale = 1, dv_offset = 0, dv_addToPyOpt = True\<rparr>)],
      DVNames = [(''fuelFraction'', ''shared''), (''reserveFraction'', ''rsv'')],
      otherAttrs = []\<rparr>"
    by (simp add: c_def addDV_def addDV_name_def possibleDVs_def getattr_fc_def
          FuelCase_init_def dict_set_def Let_def)
  have p: "wp_name (prob w) = ''wp''" "fuelcases (prob w) = [20]"
    "components (prob w) = []" "caseHeap w 20 = c"
    by (simp_all add: w_def addFuelCases_def WeightProblem_init_def Let_def)
  have v: "map var_name (optVars (addVariablesPyOpt w \<lparr>optVars = [], optCons = []\<rparr>))
             = [''wp_shared'', ''wp_rsv'']"
    by (simp add: addVariablesPyOpt_def addVariables_DVs_def p c dict_items_def dict_keys_def
          dict_get_def addVar_def Let_def)
  have k: "dict_keys (DVNames c) = [''fuelFraction'', ''reserveFraction'']"
    by (simp add: c dict_keys_def)
  have "optCons (addConstraintsPyOpt w \<lparr>optVars = [], optCons = []\<rparr>)
     = [\<lparr>con_name = ''wp_cruise_fuelcase'', con_lower = 0, con_upper = 1, con_scale = 1,
         con_linear = True,
         con_wrt = [''wp_cruise_fuelFraction'', ''wp_cruise_reserveFraction''],
         con_jac = [(''wp_cruise_fuelFraction'', [[1]]),
                    (''wp_cruise_reserveFraction'', [[1]])]\<rparr>]"
    using both_fractions_constraint [of c "\<lparr>optVars = [], optCons = []\<rparr>" "''wp''"]
    by (simp add: addConstraintsPyOpt_def p k) (simp add: c)
  with v show ?thesis
    by (simp add: w_def c_def)
qed


text \<open>
  Claim C5. The claim asks for a constraint on the single registered variable. With
  \<open>reserveFraction\<close> alone registered, under the name \<open>rsv\<close>, the bounds are the
  claimed ones (0 and \<open>1 - 0.9\<close>) but the variable handed to the optimizer is
  \<open>wp_rsv\<close> and the constraint refers to \<open>wp_cruise_reserveFraction\<close>.
\<close>

theorem reserve_overridden_constraint_off_variable:
  "map var_name (optVars (addVariablesPyOpt
      (state_of (addFuelCases (ArgList [20])
         \<lparr>prob = WeightProblem_init ''wp'' ''SI'' None,
          compHeap = (\<lambda>a. \<lparr>comp_name = [], compType = [], comp_DVs = []\<rparr>),
          caseHeap = (\<lambda>a. state_of (addDV ''reserveFraction'' None None None 1 (Some ''rsv'') 0
                              None True
                           (FuelCase_init ''cruise'' (9 / 10 :: real) (1 / 10))))\<rparr>))
      \<lparr>optVars = [], optCons = []\<rparr>))
     = [''wp_rsv''] \<and>
   optCons (addConstraintsPyOpt
      (state_of (addFuelCases (ArgList [20])
         \<lparr>prob = WeightProblem_init ''wp'' ''SI'' None,
          compHeap = (\<lambda>a. \<lparr>comp_name = [], compType = [], comp_DVs = []\<rparr>),
          caseHeap = (\<lambda>a. state_of (addDV ''reserveFraction'' None None None 1 (Some ''rsv'') 0
                              None True
                           (FuelCase_init ''cruise'' (9 / 10 :: real) (1 / 10))))\<rparr>))
      \<lparr>optVars = [], optCons = []\<rparr>)
     = [\<lparr>con_name = ''wp_cruise_fuelcase'', con_lower = 0, con_upper = 1 / 10, con_scale = 1,
         con_linear = True, con_wrt = [''wp_cruise_reserveFraction''],
         con_jac = [(''wp_cruise_reserveFraction'', [[1]])]\<rparr>]"
proof -
  define c where "c = state_of (addDV ''reserveFraction'' None None None 1 (Some ''rsv'') 0
                              None True
                           (FuelCase_init ''cruise'' (9 / 10 :: real) (1 / 10)))"
  define w :: "(real, unit) world" where "w = state_of (addFuelCases (ArgList [20])
         \<lparr>prob = WeightProblem_init ''wp'' ''SI'' None,
          compHeap = (\<lambda>a. \<lparr>comp_name = [], compType = [], comp_DVs = []\<rparr>),
          caseHeap = (\<lambda>a. c)\<rparr>)"
  have c: "c = \<lparr>fc_name = ''cruise'', fuelFraction = 9 / 10, reserveFraction = 1 / 10,
      DVs = [(''rsv'', \<lparr>dv_key = ''reserveFraction'', dv_value = 1 / 10, dv_lower = None,
                 dv_upper = None, dv_scale = 1, dv_offset = 0, dv_addToPyOpt = True\<rparr>)],
      DVNames = [(''reserveFraction'', ''rsv'')],
      otherAttrs = []\<rparr>"
    by (simp add: c_def addDV_def addDV_name_def possibleDVs_def getattr_fc_def
          FuelCase_init_def dict_set_def Let_def)
  have p: "wp_name (prob w) = ''wp''" "fuelcases (prob w) = [20]"
    "components (prob w) = []" "caseHeap w 20 = c"
    by (simp_all add: w_def addFuelCases_def WeightProblem_init_def Let_def)
  have v: "map var_name (optVars (addVariablesPyOpt w \<lparr>optVars = [], optCons = []\<rparr>))
             = [''wp_rsv'']"
    by (simp add: addVariablesPyOpt_def addVariables_DVs_def p c dict_items_def dict_keys_def
          dict_get_def addVar_def Let_def)
  have k: "dict_keys (DVNames c) = [''reserveFraction'']"
    by (simp add: c dict_keys_def)
  have wf: "wf_case c"
    by (simp add: wf_case_def k possibleDVs_def)
  have "optCons (addConstraintsPyOpt w \<lparr>optVars = [], optCons = []\<rparr>)
     = [\<lparr>con_name = ''wp_cruise_fuelcase'', con_lower = 0, con_upper = 1 / 10, con_scale = 1,
         con_linear = True, con_wrt = [''wp_cruise_reserveFraction''],
         con_jac = [(''wp_cruise_reserveFraction'', [[1]])]\<rparr>]"
    using one_or_no_fraction_constraint [OF wf, of "\<lparr>optVars = [], optCons = []\<rparr>" "''wp''"]
    by (simp add: addConstraintsPyOpt_def p k) (simp add: c)
  with v show ?thesis
    by (simp add: w_def c_def)
qed

section \<open>Properties of the key selection\<close>

lemma set_dict_keys: "set (dict_keys d) = fst ` set d"
  by (simp add: dict_keys_def)

lemma dict_get_in_keys: "k \<in> set (dict_keys d) \<Longrightarrow> \<exists>v. dict_get d k = Some v"
  by (auto simp: set_dict_keys dict_get_def weak_map_of_SomeI)

lemma dict_get_keys: "dict_get d k = Some v \<Longrightarrow> k \<in> set (dict_keys d)"
  by (auto simp: set_dict_keys dict_get_def dest: map_of_SomeD intro: rev_image_eqI)

lemma set_map_filter: "set (List.map_filter f xs) = {y. \<exists>x\<in>set xs. f x = Some y}"
  by (induction xs) (auto split: option.splits)

lemma set_dict_items: "set (dict_items d) = {(k, v). dict_get d k = Some v}"
proof -
  have "set (dict_items d) = {(k, v). k \<in> set (dict_keys d) \<and> dict_get d k = Some v}"
    by (auto simp: dict_items_def set_map_filter)
  then show ?thesis
    using dict_get_keys [of d] by auto
qed

lemma keys_of_type_iff:
  "(k \<in> keys_of_type w tys) =
     (\<exists>a. dict_get (components (prob w)) k = Some a \<and> compType (compHeap w a) \<in> set tys)"
  by (auto simp: keys_of_type_def set_dict_items image_iff)

lemma compType_of_Inr:
  "dict_get (components (prob w)) k = Some a \<Longrightarrow> compType_of w k = Inr (compType (compHeap w a))"
  by (simp add: compType_of_def)


lemma includeType_loop_result:
  assumes "set ks \<subseteq> set (dict_keys (components (prob w)))"
  shows "\<exists>tmp'. includeType_loop w tys ks tmp = Inr tmp' \<and>
           set tmp' = set tmp \<union> (set ks \<inter> keys_of_type w tys) \<and>
           (distinct tmp \<longrightarrow> distinct tmp')"
  using assms
proof (induction ks arbitrary: tmp)
  case Nil
  then show ?case by simp
next
  case (Cons k ks)
  from Cons.prems have "k \<in> set (dict_keys (components (prob w)))" by simp
  then obtain a where a: "dict_get (components (prob w)) k = Some a"
    using dict_get_in_keys by fastforce
  let ?t = "compType (compHeap w a)"
  let ?tmp1 = "if ?t \<in> set tys then set_add k tmp else tmp"
  from Cons.prems have "set ks \<subseteq> set (dict_keys (components (prob w)))" by simp
  from Cons.IH [OF this, of ?tmp1] obtain tmp' where
    r: "includeType_loop w tys ks ?tmp1 = Inr tmp'"
       "set tmp' = set ?tmp1 \<union> (set ks \<inter> keys_of_type w tys)"
       "distinct ?tmp1 \<longrightarrow> distinct tmp'"
    by auto
  have k: "(k \<in> keys_of_type w tys) = (?t \<in> set tys)"
    using a by (simp add: keys_of_type_iff)
  have s1: "set ?tmp1 = set tmp \<union> ({k} \<inter> keys_of_type w tys)"
    by (auto simp: k set_add_def)
  have d1: "distinct tmp \<longrightarrow> distinct ?tmp1"
    by (simp add: set_add_def)
  have "includeType_loop w tys (k # ks) tmp = Inr tmp'"
    using r(1) by (simp add: compType_of_Inr [OF a])
  moreover have "set tmp' = set tmp \<union> (set (k # ks) \<inter> keys_of_type w tys)"
    using r(2) s1 by auto
  moreover have "distinct tmp \<longrightarrow> distinct tmp'"
    using r(3) d1 by simp
  ultimately show ?case by simp
qed

lemma excludeType_loop_result:
  assumes "set ks \<subseteq> set (dict_keys (components (prob w)))"
    and "distinct ks" and "set ks \<subseteq> set tmp"
  shows "\<exists>tmp'. excludeType_loop w tys ks tmp = Inr tmp' \<and>
           set tmp' = set tmp - (set ks \<inter> keys_of_type w tys)"
  using assms
proof (induction ks arbitrary: tmp)
  case Nil
  then show ?case by simp
next
  case (Cons k ks)
  from Cons.prems have "k \<in> set (dict_keys (components (prob w)))" by simp
  then obtain a where a: "dict_get (components (prob w)) k = Some a"
    using dict_get_in_keys by fastforce
  let ?t = "compType (compHeap w a)"
  have k: "(k \<in> keys_of_type w tys) = (?t \<in> set tys)"
    using a by (simp add: keys_of_type_iff)
  from Cons.prems have sub: "set ks \<subseteq> set (dict_keys (components (prob w)))"
    and dis: "distinct ks" and kn: "k \<notin> set ks" and kt: "k \<in> set tmp"
    and st: "set ks \<subseteq> set tmp"
    by simp_all
  show ?case
  proof (cases "?t \<in> set tys")
    case True
    have "set ks \<subseteq> set (removeAll k tmp)"
      using st kn by auto
    from Cons.IH [OF sub dis this] obtain tmp' where
      r: "excludeType_loop w tys ks (removeAll k tmp) = Inr tmp'"
         "set tmp' = set (removeAll k tmp) - (set ks \<inter> keys_of_type w tys)"
      by auto
    have "excludeType_loop w tys (k # ks) tmp = Inr tmp'"
      using r(1) True kt by (simp add: compType_of_Inr [OF a])
    moreover have "set tmp' = set tmp - (set (k # ks) \<inter> keys_of_type w tys)"
      using r(2) True k by auto
    ultimately show ?thesis by simp
  next
    case False
    from Cons.IH [OF sub dis st] obtain tmp' where
      r: "excludeType_loop w tys ks tmp = Inr tmp'"
         "set tmp' = set tmp - (set ks \<inter> keys_of_type w tys)"
      by auto
    have "excludeType_loop w tys (k # ks) tmp = Inr tmp'"
      using r(1) False by (simp add: compType_of_Inr [OF a])
    moreover have "set tmp' = set tmp - (set (k # ks) \<inter> keys_of_type w tys)"
      using r(2) False k by auto
    ultimately show ?thesis by simp
  qed
qed


lemma filter_includeType_result:
  assumes "set wk = set (dict_keys (components (prob w)))" and "distinct wk"
  shows "\<exists>wk1. filter_includeType w includeType wk = Inr wk1 \<and> distinct wk1 \<and>
           set wk1 = (case includeType of None \<Rightarrow> set wk
                      | Some f \<Rightarrow> set wk \<inter> keys_of_type w (as_list f))"
proof (cases includeType)
  case None
  with assms show ?thesis by (simp add: filter_includeType_def)
next
  case (Some f)
  from assms(1) have "set wk \<subseteq> set (dict_keys (components (prob w)))" by simp
  from includeType_loop_result [OF this, of "as_list f" "[]"] obtain tmp' where
    "includeType_loop w (as_list f) wk [] = Inr tmp'"
    "set tmp' = set [] \<union> (set wk \<inter> keys_of_type w (as_list f))"
    "distinct [] \<longrightarrow> distinct tmp'"
    by auto
  with Some show ?thesis by (simp add: filter_includeType_def)
qed

lemma filter_include_result:
  "set (filter_include include wk) =
     (case include of None \<Rightarrow> set wk | Some f \<Rightarrow> set wk \<inter> set (as_list f))"
  "distinct wk \<Longrightarrow> distinct (filter_include include wk)"
  by (auto simp: filter_include_def py_set_def split: option.splits)

lemma filter_exclude_result:
  "set (filter_exclude exclude wk) =
     (case exclude of None \<Rightarrow> set wk | Some f \<Rightarrow> set wk - set (as_list f))"
  "distinct wk \<Longrightarrow> distinct (filter_exclude exclude wk)"
  by (auto simp: filter_exclude_def py_set_def split: option.splits)

lemma filter_excludeType_result:
  assumes "set wk \<subseteq> set (dict_keys (components (prob w)))" and "distinct wk"
  shows "\<exists>wk4. filter_excludeType w excludeType wk = Inr wk4 \<and>
           set wk4 = (case excludeType of None \<Rightarrow> set wk
                      | Some f \<Rightarrow> set wk - keys_of_type w (as_list f))"
proof (cases excludeType)
  case None
  then show ?thesis by (simp add: filter_excludeType_def)
next
  case (Some f)
  from excludeType_loop_result [OF assms(1) assms(2), of wk "as_list f"] obtain tmp' where
    "excludeType_loop w (as_list f) wk wk = Inr tmp'"
    "set tmp' = set wk - (set wk \<inter> keys_of_type w (as_list f))"
    by auto
  with Some show ?thesis by (auto simp: filter_excludeType_def)
qed

text \<open>
  Claim C6. \<open>_getComponentKeys\<close> never raises and returns the set the specification
  describes: all registered names, narrowed by \<open>includeType\<close>, intersected with
  \<open>include\<close>, less \<open>exclude\<close>, less the components of an \<open>excludeType\<close>, in that
  order, each filter applying only when it is given and a bare string standing for the
  list of that one string (\<open>as_list\<close>).
\<close>

theorem getComponentKeys_refines_spec:
  "getComponentKeys w include exclude includeType excludeType =
     Inr (selectComponentKeys_spec w include exclude includeType excludeType)"
proof -
  let ?K0 = "py_set (dict_keys (components (prob w)))"
  have k0: "set ?K0 = set (dict_keys (components (prob w)))" "distinct ?K0"
    by (simp_all add: py_set_def)
  from filter_includeType_result [OF k0, of includeType] obtain wk1 where
    w1: "filter_includeType w includeType ?K0 = Inr wk1" "distinct wk1"
        "set wk1 = (case includeType of None \<Rightarrow> set ?K0
                      | Some f \<Rightarrow> set ?K0 \<inter> keys_of_type w (as_list f))"
    by auto
  let ?wk3 = "filter_exclude exclude (filter_include include wk1)"
  have sub1: "set wk1 \<subseteq> set (dict_keys (components (prob w)))"
    using w1(3) k0(1) by (auto split: option.splits)
  have d3: "distinct ?wk3"
    using w1(2) by (simp add: filter_include_result filter_exclude_result)
  have s3: "set ?wk3 =
     (case exclude of None \<Rightarrow> (case include of None \<Rightarrow> set wk1 | Some f \<Rightarrow> set wk1 \<inter> set (as_list f))
      | Some g \<Rightarrow> (case include of None \<Rightarrow> set wk1 | Some f \<Rightarrow> set wk1 \<inter> set (as_list f))
                  - set (as_list g))"
    by (cases exclude; cases "include") (simp_all add: filter_include_result filter_exclude_result)
  have sub3: "set ?wk3 \<subseteq> set (dict_keys (components (prob w)))"
    using sub1 s3 by (auto split: option.splits)
  from filter_excludeType_result [OF sub3 d3, of excludeType] obtain wk4 where
    w4: "filter_excludeType w excludeType ?wk3 = Inr wk4"
        "set wk4 = (case excludeType of None \<Rightarrow> set ?wk3
                      | Some f \<Rightarrow> set ?wk3 - keys_of_type w (as_list f))"
    by auto
  have "getComponentKeys w include exclude includeType excludeType = Inr (set wk4)"
    by (simp add: getComponentKeys_def w1(1) w4(1))
  moreover have "set wk4 = selectComponentKeys_spec w include exclude includeType excludeType"
    unfolding w4(2) s3 w1(3) k0(1) selectComponentKeys_spec_def Let_def
    by (simp split: option.splits)
  ultimately show ?thesis by simp
qed


text \<open>
  The test of the specification: components \<open>A\<close> and \<open>B\<close> of type \<open>wing\<close> and \<open>C\<close> of
  type \<open>fuel\<close>, registered with \<open>addComponents\<close>; \<open>includeType = "wing"\<close> and
  \<open>exclude = "A"\<close> select exactly \<open>B\<close>.
\<close>

theorem getComponentKeys_refines_spec_witness:
  "getComponentKeys
     (state_of (addComponents (\<lambda>u c. c) (ArgList [10, 11, 12])
        \<lparr>prob = WeightProblem_init ''wp'' ''SI'' None,
         compHeap = (\<lambda>a. if a = 10 then \<lparr>comp_name = ''A'', compType = ''wing'', comp_DVs = []\<rparr>
                          else if a = 11 then \<lparr>comp_name = ''B'', compType = ''wing'', comp_DVs = []\<rparr>
                          else \<lparr>comp_name = ''C'', compType = ''fuel'', comp_DVs = []\<rparr>),
         caseHeap = (\<lambda>a. FuelCase_init [] (0::real) 0)\<rparr>))
     None (Some (Str ''A'')) (Some (Str ''wing'')) None
   = Inr {''B''}"
proof -
  define w0 :: "(real, unit) world" where "w0 =
        \<lparr>prob = WeightProblem_init ''wp'' ''SI'' None,
         compHeap = (\<lambda>a. if a = 10 then \<lparr>comp_name = ''A'', compType = ''wing'', comp_DVs = []\<rparr>
                          else if a = 11 then \<lparr>comp_name = ''B'', compType = ''wing'', comp_DVs = []\<rparr>
                          else \<lparr>comp_name = ''C'', compType = ''fuel'', comp_DVs = []\<rparr>),
         caseHeap = (\<lambda>a. FuelCase_init [] (0::real) 0)\<rparr>"
  define w where "w = state_of (addComponents (\<lambda>u c. c) (ArgList [10, 11, 12]) w0)"
  have comps: "components (prob w) = [(''A'', 10), (''B'', 11), (''C'', 12)]"
    by (simp add: w_def w0_def addComponents_def WeightProblem_init_def Let_def dict_set_def
          register_DVs_def dict_items_def dict_keys_def)
  have heap: "compType (compHeap w 10) = ''wing''" "compType (compHeap w 11) = ''wing''"
    "compType (compHeap w 12) = ''fuel''"
    by (simp_all add: w_def w0_def addComponents_def WeightProblem_init_def Let_def dict_set_def
          register_DVs_def dict_items_def dict_keys_def)
  have "selectComponentKeys_spec w None (Some (Str ''A'')) (Some (Str ''wing'')) None = {''B''}"
    by (auto simp: selectComponentKeys_spec_def keys_of_type_def comps heap dict_items_def
          dict_keys_def dict_get_def as_list_def Let_def)
  then show ?thesis
    using getComponentKeys_refines_spec [of w None "Some (Str ''A'')" "Some (Str ''wing'')" None]
    by (simp add: w_def w0_def)
qed

section \<open>Properties of the registration calls\<close>

lemma addComponents_list:
  "addComponents setUnitSystem (ArgList comps) w =
     Returned (addComponents_loop setUnitSystem comps w)"
  by (simp add: addComponents_def)

lemma addFuelCases_list:
  "addFuelCases (ArgList cases) w = Returned (addFuelCases_loop cases w)"
  by (simp add: addFuelCases_def)

text \<open>
  Claim C1. A list is accepted by both calls, but a single component or fuel case
  passed bare is not: its type is its own class, so neither \<open>type(x) == list\<close> nor
  \<open>type(x) == object\<close> holds and the call raises \<open>Error\<close>, leaving the problem as it
  was. The comment above the test and the message of the error both say that a single
  entity is meant to be accepted.
\<close>

theorem single_entity_is_rejected:
  "addComponents setUnitSystem (ArgEntity a) w =
     Raised (Error ''addComponents() takes in either a list of or a single component'') w \<and>
   addFuelCases (ArgEntity a) w =
     Raised (Error ''addFuelCases() takes in either a list of or a single fuelcase'') w"
  by (simp add: addComponents_def addFuelCases_def)

section \<open>Registering a key twice\<close>

lemma addDV_Returned:
  assumes "k \<in> set possibleDVs"
  shows "addDV k val lo up sc nm off axis add c =
           Returned (c\<lparr>DVs := dict_set (DVs c) (addDV_name c k nm axis)
                       \<lparr>dv_key = k,
                        dv_value = (case val of Some v \<Rightarrow> v
                                    | None \<Rightarrow> if k = ''fuelFraction'' then fuelFraction c
                                              else reserveFraction c),
                        dv_lower = lo, dv_upper = up,
                        dv_scale = sc, dv_offset = off, dv_addToPyOpt = add\<rparr>,
             DVNames := dict_set (DVNames c) k (addDV_name c k nm axis)\<rparr>)"
proof -
  from assms have "k = ''fuelFraction'' \<or> k = ''reserveFraction''"
    by (simp add: possibleDVs_def)
  with assms show ?thesis
    by (cases val) (auto simp: addDV_def Let_def getattr_fc_def)
qed

lemma addDV_name_cong: "fc_name c' = fc_name c \<Longrightarrow> addDV_name c' k nm axis = addDV_name c k nm axis"
  by (cases nm) (simp_all add: addDV_name_def)

lemma dict_get_dict_set: "dict_get (dict_set d k v) k' = (if k' = k then Some v else dict_get d k')"
  by (simp add: dict_get_def dict_set_def update_conv')

lemma dict_set_twice: "dict_set (dict_set d k v) k v' = dict_set d k v'"
  by (simp add: dict_set_def)

lemma distinct_dict_keys: "distinct (dict_keys d)"
  by (simp add: dict_keys_def)

lemma count_list_distinct: "distinct xs \<Longrightarrow> k \<in> set xs \<Longrightarrow> count_list xs k = 1"
  by (induction xs) auto

text \<open>
  Claim C8, as amended. Take any case and register the same whitelisted key twice.
  \<open>DVNames\<close> then holds exactly one entry for the key, and it names the variable of
  the second registration. When both registrations resolve to the same variable name,
  the second overwrites the \<open>DVs\<close> entry of the first: the case is the one obtained by
  the second registration alone. When they resolve to different names (another
  \<open>name\<close> or \<open>axis\<close> argument), \<open>DVs\<close> is keyed by the variable name and keeps both
  design variables, each carrying the key.
\<close>

theorem second_addDV_overwrites_by_name:
  assumes "k \<in> set possibleDVs"
    and "c' = state_of (addDV k val' lo' up' sc' nm' off' axis' add' c)"
    and "c'' = state_of (addDV k val'' lo'' up'' sc'' nm'' off'' axis'' add'' c')"
  shows "dict_get (DVNames c'') k = Some (addDV_name c k nm'' axis'') \<and>
         count_list (dict_keys (DVNames c'')) k = 1 \<and>
         (addDV_name c k nm' axis' = addDV_name c k nm'' axis'' \<longrightarrow>
            c'' = state_of (addDV k val'' lo'' up'' sc'' nm'' off'' axis'' add'' c)) \<and>
         (addDV_name c k nm' axis' \<noteq> addDV_name c k nm'' axis'' \<longrightarrow>
            (\<exists>dv1 dv2. dict_get (DVs c'') (addDV_name c k nm' axis') = Some dv1 \<and> dv_key dv1 = k \<and>
                       dict_get (DVs c'') (addDV_name c k nm'' axis'') = Some dv2 \<and> dv_key dv2 = k))"
proof -
  have n1: "fc_name c' = fc_name c"
    by (simp add: assms(2) addDV_Returned [OF assms(1)])
  have nm: "addDV_name c' k nm'' axis'' = addDV_name c k nm'' axis''"
    using n1 by (rule addDV_name_cong)
  have f1: "fuelFraction c' = fuelFraction c" "reserveFraction c' = reserveFraction c"
    by (simp_all add: assms(2) addDV_Returned [OF assms(1)])
  have a: "dict_get (DVNames c'') k = Some (addDV_name c k nm'' axis'')"
    by (simp add: assms(3) addDV_Returned [OF assms(1)] nm dict_get_dict_set)
  then have "k \<in> set (dict_keys (DVNames c''))"
    by (rule dict_get_keys)
  then have b: "count_list (dict_keys (DVNames c'')) k = 1"
    using distinct_dict_keys [of "DVNames c''"] by (simp add: count_list_distinct)
  have c: "c'' = state_of (addDV k val'' lo'' up'' sc'' nm'' off'' axis'' add'' c)"
    if "addDV_name c k nm' axis' = addDV_name c k nm'' axis''"
  proof -
    have e1: "c' = c\<lparr>DVs := dict_set (DVs c) (addDV_name c k nm' axis')
                       \<lparr>dv_key = k,
                        dv_value = (case val' of Some v \<Rightarrow> v
                                    | None \<Rightarrow> if k = ''fuelFraction'' then fuelFraction c
                                              else reserveFraction c),
                        dv_lower = lo', dv_upper = up',
                        dv_scale = sc', dv_offset = off', dv_addToPyOpt = add'\<rparr>,
             DVNames := dict_set (DVNames c) k (addDV_name c k nm' axis')\<rparr>"
      by (simp add: assms(2) addDV_Returned [OF assms(1)])
    have e2: "c'' = c'\<lparr>DVs := dict_set (DVs c') (addDV_name c k nm'' axis'')
                       \<lparr>dv_key = k,
                        dv_value = (case val'' of Some v \<Rightarrow> v
                                    | None \<Rightarrow> if k = ''fuelFraction'' then fuelFraction c
                                              else reserveFraction c),
                        dv_lower = lo'', dv_upper = up'',
                        dv_scale = sc'', dv_offset = off'', dv_addToPyOpt = add''\<rparr>,
             DVNames := dict_set (DVNames c') k (addDV_name c k nm'' axis'')\<rparr>"
      by (cases val'') (simp_all add: assms(3) addDV_Returned [OF assms(1)] nm f1)
    show ?thesis
      unfolding e2 unfolding e1 using that
      by (cases val'') (simp_all add: addDV_Returned [OF assms(1)] dict_set_twice)
  qed
  have d: "\<exists>dv1 dv2. dict_get (DVs c'') (addDV_name c k nm' axis') = Some dv1 \<and> dv_key dv1 = k \<and>
                       dict_get (DVs c'') (addDV_name c k nm'' axis'') = Some dv2 \<and> dv_key dv2 = k"
    if "addDV_name c k nm' axis' \<noteq> addDV_name c k nm'' axis''"
    using that
    by (simp add: assms(3) assms(2) addDV_Returned [OF assms(1)] dict_get_dict_set
          addDV_name_cong [of "c\<lparr>DVs := _, DVNames := _\<rparr>" c])
  from a b c d show ?thesis by simp
qed


text \<open>
  Registering \<open>fuelFraction\<close> twice on a fresh case: under the name \<open>shared\<close> the
  second time, and under the default name both times.
\<close>

theorem second_addDV_overwrites_by_name_witness:
  "dict_get (DVNames (state_of (addDV ''fuelFraction'' None None None 1 (Some ''shared'') 0 None True
      (state_of (addDV ''fuelFraction'' None None None 1 None 0 None True
         (FuelCase_init ''cruise'' (9 / 10 :: real) (1 / 10))))))) ''fuelFraction''
     = Some ''shared'' \<and>
   state_of (addDV ''fuelFraction'' (Some (1 / 2)) None None 1 None 0 None True
      (state_of (addDV ''fuelFraction'' None None None 1 None 0 None True
         (FuelCase_init ''cruise'' (9 / 10 :: real) (1 / 10)))))
     = state_of (addDV ''fuelFraction'' (Some (1 / 2)) None None 1 None 0 None True
         (FuelCase_init ''cruise'' (9 / 10 :: real) (1 / 10)))"
proof -
  define c where "c = FuelCase_init ''cruise'' (9 / 10 :: real) (1 / 10)"
  have k: "''fuelFraction'' \<in> set possibleDVs"
    by (simp add: possibleDVs_def)
  have n: "addDV_name c ''fuelFraction'' (Some ''shared'') None = ''shared''"
    "addDV_name c ''fuelFraction'' None None = ''cruise_fuelFraction''"
    by (simp_all add: addDV_name_def c_def FuelCase_init_def)
  show ?thesis
    using second_addDV_overwrites_by_name [where c = c and val' = None and lo' = None
          and up' = None and sc' = 1 and nm' = None and off' = 0 and axis' = None and add' = True
          and val'' = None and lo'' = None and up'' = None and sc'' = 1 and nm'' = "Some ''shared''"
          and off'' = 0 and axis'' = None and add'' = True, OF k refl refl]
      second_addDV_overwrites_by_name [where c = c and val' = None and lo' = None
          and up' = None and sc' = 1 and nm' = None and off' = 0 and axis' = None and add' = True
          and val'' = "Some (1 / 2)" and lo'' = None and up'' = None and sc'' = 1 and nm'' = None
          and off'' = 0 and axis'' = None and add'' = True, OF k refl refl]
    by (simp add: n c_def [symmetric])
qed

text \<open>
  Claim C8 as stated fails: after registering \<open>fuelFraction\<close> under its default name
  and then under the name \<open>shared\<close>, the \<open>DVs\<close> map has two entries and both carry the
  key \<open>fuelFraction\<close>.
\<close>

theorem two_DVs_with_one_key_counterexample:
  "map (dv_key \<circ> snd) (dict_items (DVs
      (state_of (addDV ''fuelFraction'' None None None 1 (Some ''shared'') 0 None True
        (state_of (addDV ''fuelFraction'' None None None 1 None 0 None True
           (FuelCase_init ''cruise'' (9 / 10 :: real) (1 / 10))))))))
     = [''fuelFraction'', ''fuelFraction''] \<and>
   map fst (dict_items (DVs
      (state_of (addDV ''fuelFraction'' None None None 1 (Some ''shared'') 0 None True
        (state_of (addDV ''fuelFraction'' None None None 1 None 0 None True
           (FuelCase_init ''cruise'' (9 / 10 :: real) (1 / 10))))))))
     = [''cruise_fuelFraction'', ''shared'']"
  by (simp add: addDV_def addDV_name_def possibleDVs_def getattr_fc_def FuelCase_init_def
        dict_set_def dict_keys_def dict_items_def dict_get_def Let_def)

section \<open>The names a constraint refers to\<close>

lemma addDV_call_state:
  "arg_key a \<in> set possibleDVs \<Longrightarrow>
   fc_name (state_of (addDV_call a c)) = fc_name c \<and>
   set (dict_keys (DVs (state_of (addDV_call a c)))) =
     insert (addDV_name c (arg_key a) (arg_name a) (arg_axis a)) (set (dict_keys (DVs c))) \<and>
   set (dict_keys (DVNames (state_of (addDV_call a c)))) =
     insert (arg_key a) (set (dict_keys (DVNames c)))"
  by (simp add: addDV_call_def addDV_Returned set_dict_keys_dict_set)

lemma addDV_call_raise:
  "arg_key a \<notin> set possibleDVs \<Longrightarrow> state_of (addDV_call a c) = c"
  by (simp add: addDV_call_def addDV_def)

lemma wf_case_addDV_call: "wf_case c \<Longrightarrow> wf_case (state_of (addDV_call a c))"
  by (simp add: addDV_call_def wf_case_addDV)

lemma addDV_calls_Nil: "addDV_calls [] c = c"
  unfolding addDV_calls_def by (simp only: List.fold_simps id_apply)

lemma addDV_calls_Cons:
  "addDV_calls (a # calls) c = addDV_calls calls (state_of (addDV_call a c))"
  unfolding addDV_calls_def by (simp only: List.fold_simps o_apply)

lemma addDV_calls_name: "fc_name (addDV_calls calls c) = fc_name c"
proof (induction calls arbitrary: c)
  case Nil
  show ?case by (simp add: addDV_calls_Nil)
next
  case (Cons a calls)
  have "fc_name (state_of (addDV_call a c)) = fc_name c"
    by (cases "arg_key a \<in> set possibleDVs") (simp_all add: addDV_call_state addDV_call_raise)
  with Cons.IH [of "state_of (addDV_call a c)"] show ?case
    by (simp add: addDV_calls_Cons)
qed

lemma addDV_calls_wf: "wf_case c \<Longrightarrow> wf_case (addDV_calls calls c)"
proof (induction calls arbitrary: c)
  case Nil
  then show ?case by (simp add: addDV_calls_Nil)
next
  case (Cons a calls)
  from Cons.prems have "wf_case (state_of (addDV_call a c))"
    by (rule wf_case_addDV_call)
  then have "wf_case (addDV_calls calls (state_of (addDV_call a c)))"
    by (rule Cons.IH)
  then show ?case
    by (simp add: addDV_calls_Cons)
qed

lemma addDV_calls_DVs:
  "set (dict_keys (DVs (addDV_calls calls c))) =
     set (dict_keys (DVs c)) \<union>
     set (map (\<lambda>a. addDV_name c (arg_key a) (arg_name a) (arg_axis a))
              (filter (\<lambda>a. arg_key a \<in> set possibleDVs) calls))"
proof (induction calls arbitrary: c)
  case Nil
  show ?case by (simp add: addDV_calls_Nil)
next
  case (Cons a calls)
  let ?c1 = "state_of (addDV_call a c)"
  note IH = Cons.IH [of ?c1]
  show ?case
  proof (cases "arg_key a \<in> set possibleDVs")
    case True
    note st = addDV_call_state [OF True, of c]
    from st have nm: "(\<lambda>a. addDV_name ?c1 (arg_key a) (arg_name a) (arg_axis a))
                    = (\<lambda>a. addDV_name c (arg_key a) (arg_name a) (arg_axis a))"
      using addDV_name_cong [of ?c1 c] by simp
    show ?thesis
      unfolding addDV_calls_Cons IH nm using st True by simp
  next
    case False
    then have c1: "?c1 = c" by (rule addDV_call_raise)
    show ?thesis
      using Cons.IH [of c] False by (simp add: addDV_calls_Cons c1)
  qed
qed

lemma addDV_calls_DVNames:
  "set (dict_keys (DVNames (addDV_calls calls c))) =
     set (dict_keys (DVNames c)) \<union>
     set (filter (\<lambda>k. k \<in> set possibleDVs) (map arg_key calls))"
proof (induction calls arbitrary: c)
  case Nil
  show ?case by (simp add: addDV_calls_Nil)
next
  case (Cons a calls)
  let ?c1 = "state_of (addDV_call a c)"
  note IH = Cons.IH [of ?c1]
  show ?case
  proof (cases "arg_key a \<in> set possibleDVs")
    case True
    note st = addDV_call_state [OF True, of c]
    show ?thesis
      unfolding addDV_calls_Cons IH using st True by simp
  next
    case False
    then have c1: "?c1 = c" by (rule addDV_call_raise)
    show ?thesis
      using Cons.IH [of c] False by (simp add: addDV_calls_Cons c1)
  qed
qed


lemma overridden_only_unregistered:
  assumes k: "k \<in> set possibleDVs" and reg: "k \<in> arg_key ` set calls"
    and ovr: "\<forall>a\<in>set calls. arg_key a \<in> set possibleDVs \<longrightarrow>
                addDV_name (FuelCase_init cn ff rf) (arg_key a) (arg_name a) (arg_axis a)
                  \<noteq> cn @ ''_'' @ k"
  shows "(\<exists>con. optCons (addLinearConstraint (addDV_calls calls (FuelCase_init cn ff rf)) op pfx)
                 = optCons op @ [con] \<and>
               pfx @ ''_'' @ cn @ ''_'' @ k \<in> set (con_wrt con) \<and>
               map fst (con_jac con) = con_wrt con) \<and>
         pfx @ ''_'' @ cn @ ''_'' @ k \<notin>
           set (varNames pfx (DVs (addDV_calls calls (FuelCase_init cn ff rf))))"
proof -
  let ?init = "FuelCase_init cn ff rf"
  let ?fin = "addDV_calls calls ?init"
  have nm: "fc_name ?fin = cn"
    by (simp add: addDV_calls_name FuelCase_init_def)
  have wf: "wf_case ?fin"
    by (rule addDV_calls_wf) (rule wf_case_init)
  have "k \<in> set (filter (\<lambda>k. k \<in> set possibleDVs) (map arg_key calls))"
    using k reg by auto
  then have reg': "k \<in> set (dict_keys (DVNames ?fin))"
    unfolding addDV_calls_DVNames by simp
  have keys0: "set (dict_keys (DVs ?init)) = {}"
    by (simp add: FuelCase_init_def dict_keys_Nil)
  have free: "cn @ ''_'' @ k \<notin> set (dict_keys (DVs ?fin))"
  proof
    assume "cn @ ''_'' @ k \<in> set (dict_keys (DVs ?fin))"
    then have "cn @ ''_'' @ k \<in>
        set (map (\<lambda>a. addDV_name ?init (arg_key a) (arg_name a) (arg_axis a))
                 (filter (\<lambda>a. arg_key a \<in> set possibleDVs) calls))"
      unfolding addDV_calls_DVs keys0 by simp
    then obtain a where "a \<in> set calls" "arg_key a \<in> set possibleDVs"
      "addDV_name ?init (arg_key a) (arg_name a) (arg_axis a) = cn @ ''_'' @ k"
      by auto
    with ovr show False by auto
  qed
  from emitted_for_registered [OF wf reg', of op pfx] obtain con where
    "optCons (addLinearConstraint ?fin op pfx) = optCons op @ [con] \<and>
          pfx @ ''_'' @ fc_name ?fin @ ''_'' @ k \<in> set (con_wrt con) \<and>
          map fst (con_jac con) = con_wrt con" ..
  then have "\<exists>con. optCons (addLinearConstraint ?fin op pfx) = optCons op @ [con] \<and>
               pfx @ ''_'' @ cn @ ''_'' @ k \<in> set (con_wrt con) \<and>
               map fst (con_jac con) = con_wrt con"
    unfolding nm by (intro exI [of _ con])
  moreover have "pfx @ ''_'' @ cn @ ''_'' @ k \<notin> set (varNames pfx (DVs ?fin))"
    using free varNames_mem [of pfx "cn @ ''_'' @ k" "DVs ?fin"] by simp
  ultimately show ?thesis by simp
qed

text \<open>
  Claim C10, as amended. Whatever the case, \<open>addLinearConstraint\<close> either adds nothing
  or adds one constraint whose \<open>wrt\<close> names (the keys of its Jacobian) are among the two
  fixed strings \<open>prefix_case_fuelFraction\<close> and \<open>prefix_case_reserveFraction\<close>. Take a
  fresh case \<open>cn\<close> and any sequence of \<open>addDV\<close> calls that registers the key \<open>k\<close> and in
  which no accepted call resolves to the name \<open>cn_k\<close> (every registration carries an
  overriding \<open>name\<close> or an \<open>axis\<close>): the constraint refers to \<open>prefix_cn_k\<close>, and no
  design variable of the case is registered under that name.
\<close>

theorem constraint_names_fixed:
  "(optCons (addLinearConstraint c op pfx) = optCons op \<or>
    (\<exists>con. optCons (addLinearConstraint c op pfx) = optCons op @ [con] \<and>
           con_wrt con \<noteq> [] \<and>
           set (con_wrt con) \<subseteq> {pfx @ ''_'' @ fc_name c @ ''_fuelFraction'',
                                 pfx @ ''_'' @ fc_name c @ ''_reserveFraction''} \<and>
           map fst (con_jac con) = con_wrt con)) \<and>
   (k \<in> set possibleDVs \<and> k \<in> arg_key ` set calls \<and>
    (\<forall>a\<in>set calls. arg_key a \<in> set possibleDVs \<longrightarrow>
        addDV_name (FuelCase_init cn ff rf) (arg_key a) (arg_name a) (arg_axis a)
          \<noteq> cn @ ''_'' @ k) \<longrightarrow>
      (\<exists>con. optCons (addLinearConstraint (addDV_calls calls (FuelCase_init cn ff rf)) op pfx)
                 = optCons op @ [con] \<and>
             pfx @ ''_'' @ cn @ ''_'' @ k \<in> set (con_wrt con) \<and>
             map fst (con_jac con) = con_wrt con) \<and>
      pfx @ ''_'' @ cn @ ''_'' @ k \<notin>
        set (varNames pfx (DVs (addDV_calls calls (FuelCase_init cn ff rf)))))"
  using emitted_names [of c op pfx] overridden_only_unregistered [of k calls cn ff rf op pfx]
  by simp


text \<open>
  A fresh case whose \<open>fuelFraction\<close> is registered once, under the name \<open>shared\<close>.
\<close>

theorem constraint_names_fixed_witness:
  "(\<exists>con. optCons (addLinearConstraint
             (addDV_calls [\<lparr>arg_key = ''fuelFraction'', arg_value = None, arg_lower = None,
                            arg_upper = None, arg_scale = 1, arg_name = Some ''shared'',
                            arg_offset = 0, arg_axis = None, arg_addToPyOpt = True\<rparr>]
                (FuelCase_init ''cruise'' (9 / 10 :: real) (1 / 10)))
             \<lparr>optVars = [], optCons = []\<rparr> ''wp'') = [con] \<and>
          ''wp_cruise_fuelFraction'' \<in> set (con_wrt con) \<and>
          map fst (con_jac con) = con_wrt con) \<and>
   ''wp_cruise_fuelFraction'' \<notin> set (varNames ''wp'' (DVs
      (addDV_calls [\<lparr>arg_key = ''fuelFraction'', arg_value = None, arg_lower = None,
                     arg_upper = None, arg_scale = 1, arg_name = Some ''shared'',
                     arg_offset = 0, arg_axis = None, arg_addToPyOpt = True\<rparr>]
         (FuelCase_init ''cruise'' (9 / 10 :: real) (1 / 10)))))"
proof -
  define call :: "real addDV_args" where
    "call = \<lparr>arg_key = ''fuelFraction'', arg_value = None, arg_lower = None,
             arg_upper = None, arg_scale = 1, arg_name = Some ''shared'',
             arg_offset = 0, arg_axis = None, arg_addToPyOpt = True\<rparr>"
  have k: "''fuelFraction'' \<in> set possibleDVs"
    by (simp add: possibleDVs_def)
  have reg: "''fuelFraction'' \<in> arg_key ` set [call]"
    by (simp add: call_def)
  have ovr: "\<forall>a\<in>set [call]. arg_key a \<in> set possibleDVs \<longrightarrow>
      addDV_name (FuelCase_init ''cruise'' (9 / 10 :: real) (1 / 10)) (arg_key a) (arg_name a)
        (arg_axis a) \<noteq> ''cruise'' @ ''_'' @ ''fuelFraction''"
    by (simp add: call_def addDV_name_def)
  have main: "(\<exists>con. optCons (addLinearConstraint
             (addDV_calls [call] (FuelCase_init ''cruise'' (9 / 10 :: real) (1 / 10)))
             \<lparr>optVars = [], optCons = []\<rparr> ''wp'') = [con] \<and>
          ''wp_cruise_fuelFraction'' \<in> set (con_wrt con) \<and>
          map fst (con_jac con) = con_wrt con) \<and>
     ''wp_cruise_fuelFraction'' \<notin> set (varNames ''wp'' (DVs
        (addDV_calls [call] (FuelCase_init ''cruise'' (9 / 10 :: real) (1 / 10)))))"
    using k reg ovr
      constraint_names_fixed [where k = "''fuelFraction''" and calls = "[call]"
        and cn = "''cruise''" and ff = "9 / 10 :: real" and rf = "1 / 10"
        and op = "\<lparr>optVars = [], optCons = []\<rparr>" and pfx = "''wp''"]
    by simp
  then show ?thesis
    unfolding call_def .
qed

text \<open>
  Claim C10 as stated fails: register \<open>fuelFraction\<close> under its default name and then
  under the name \<open>shared\<close>. The variable of the key is now \<open>shared\<close>, yet the name the
  constraint refers to, \<open>wp_cruise_fuelFraction\<close>, is still the name of a registered
  design variable, the one left by the first call.
\<close>

theorem stale_default_name_counterexample:
  "dict_get (DVNames
      (state_of (addDV ''fuelFraction'' None None None 1 (Some ''shared'') 0 None True
        (state_of (addDV ''fuelFraction'' None None None 1 None 0 None True
           (FuelCase_init ''cruise'' (9 / 10 :: real) (1 / 10))))))) ''fuelFraction''
     = Some ''shared'' \<and>
   map con_wrt (optCons (addLinearConstraint
      (state_of (addDV ''fuelFraction'' None None None 1 (Some ''shared'') 0 None True
        (state_of (addDV ''fuelFraction'' None None None 1 None 0 None True
           (FuelCase_init ''cruise'' (9 / 10 :: real) (1 / 10))))))
      \<lparr>optVars = [], optCons = []\<rparr> ''wp''))
     = [[''wp_cruise_fuelFraction'']] \<and>
   varNames ''wp'' (DVs
      (state_of (addDV ''fuelFraction'' None None None 1 (Some ''shared'') 0 None True
        (state_of (addDV ''fuelFraction'' None None None 1 None 0 None True
           (FuelCase_init ''cruise'' (9 / 10 :: real) (1 / 10)))))))
     = [''wp_cruise_fuelFraction'', ''wp_shared'']"
proof -
  define c where "c = state_of (addDV ''fuelFraction'' None None None 1 (Some ''shared'') 0
        None True
        (state_of (addDV ''fuelFraction'' None None None 1 None 0 None True
           (FuelCase_init ''cruise'' (9 / 10 :: real) (1 / 10)))))"
  have c: "c = \<lparr>fc_name = ''cruise'', fuelFraction = 9 / 10, reserveFraction = 1 / 10,
      DVs = [(''cruise_fuelFraction'', \<lparr>dv_key = ''fuelFraction'', dv_value = 9 / 10,
                 dv_lower = None, dv_upper = None, dv_scale = 1, dv_offset = 0,
                 dv_addToPyOpt = True\<rparr>),
             (''shared'', \<lparr>dv_key = ''fuelFraction'', dv_value = 9 / 10, dv_lower = None,
                 dv_upper = None, dv_scale = 1, dv_offset = 0, dv_addToPyOpt = True\<rparr>)],
      DVNames = [(''fuelFraction'', ''shared'')],
      otherAttrs = []\<rparr>"
    by (simp add: c_def addDV_def addDV_name_def possibleDVs_def getattr_fc_def
          FuelCase_init_def dict_set_def Let_def)
  have k: "dict_keys (DVNames c) = [''fuelFraction'']"
    by (simp add: c dict_keys_def)
  have wf: "wf_case c"
    by (simp add: wf_case_def k possibleDVs_def)
  have "optCons (addLinearConstraint c \<lparr>optVars = [], optCons = []\<rparr> ''wp'')
          = [\<lparr>con_name = ''wp_cruise_fuelcase'', con_lower = 0, con_upper = 9 / 10,
               con_scale = 1, con_linear = True, con_wrt = [''wp_cruise_fuelFraction''],
               con_jac = [(''wp_cruise_fuelFraction'', [[1]])]\<rparr>]"
    using one_or_no_fraction_constraint [OF wf, of "\<lparr>optVars = [], optCons = []\<rparr>" "''wp''"]
    by (simp add: k) (simp add: c)
  moreover have "varNames ''wp'' (DVs c) = [''wp_cruise_fuelFraction'', ''wp_shared'']"
    by (simp add: varNames_def c dict_keys_def)
  moreover have "dict_get (DVNames c) ''fuelFraction'' = Some ''shared''"
    by (simp add: c dict_get_def)
  ultimately show ?thesis
    by (simp add: c_def)
qed

section \<open>Registering a component twice\<close>

lemma dict_set_same: "dict_get d k = Some v \<Longrightarrow> dict_set d k v = d"
  by (simp add: dict_get_def dict_set_def update_triv)

lemma distinct_dict_items: "distinct (map fst (dict_items d))"
proof -
  have "map fst (List.map_filter (\<lambda>k. map_option (Pair k) (dict_get d k)) ks)
          = filter (\<lambda>k. dict_get d k \<noteq> None) ks" for ks
    by (induction ks) (auto split: option.splits)
  then show ?thesis
    by (simp add: dict_items_def distinct_dict_keys)
qed

lemma set_fst_dict_items: "fst ` set (dict_items d) = set (dict_keys d)"
  using dict_get_in_keys [of _ d] dict_get_keys [of d]
  by (auto simp: set_dict_items image_iff)

lemma register_fold_other:
  "key \<notin> (\<lambda>(dn, dv). nm @ ''_'' @ dn) ` set items \<Longrightarrow>
   dict_get (fold (\<lambda>(dvName, dv) cur'. dict_set cur' (nm @ ''_'' @ dvName) (dv_value dv)) items cur) key
     = dict_get cur key"
  by (induction items arbitrary: cur) (auto simp: dict_get_dict_set split: prod.splits)

lemma register_fold_hit:
  "distinct (map fst items) \<Longrightarrow> (dn, dv) \<in> set items \<Longrightarrow>
   dict_get (fold (\<lambda>(dvName, dv) cur'. dict_set cur' (nm @ ''_'' @ dvName) (dv_value dv)) items cur)
     (nm @ ''_'' @ dn) = Some (dv_value dv)"
proof (induction items arbitrary: cur)
  case Nil
  then show ?case by simp
next
  case (Cons x xs)
  obtain dn' dv' where x: "x = (dn', dv')" by (cases x)
  show ?case
  proof (cases "(dn, dv) \<in> set xs")
    case True
    with Cons show ?thesis by (simp add: x)
  next
    case False
    with Cons.prems x have e: "dn' = dn" "dv' = dv" by auto
    from Cons.prems x e have "dn \<notin> fst ` set xs" by auto
    then have "nm @ ''_'' @ dn \<notin> (\<lambda>(dn, dv). nm @ ''_'' @ dn) ` set xs"
      by (auto simp: image_iff)
    from register_fold_other [OF this] show ?thesis
      by (simp add: x e dict_get_dict_set)
  qed
qed

lemma register_fold_noop:
  "(\<forall>(dn, dv) \<in> set items. dict_get cur (nm @ ''_'' @ dn) = Some (dv_value dv)) \<Longrightarrow>
   fold (\<lambda>(dvName, dv) cur'. dict_set cur' (nm @ ''_'' @ dvName) (dv_value dv)) items cur = cur"
  by (induction items) (auto simp: dict_set_same)

lemma register_DVs_other:
  "key \<notin> set (varNames nm dvs) \<Longrightarrow> dict_get (register_DVs nm dvs cur) key = dict_get cur key"
proof -
  assume "key \<notin> set (varNames nm dvs)"
  then have "key \<notin> (\<lambda>(dn, dv). nm @ ''_'' @ dn) ` set (dict_items dvs)"
    using set_fst_dict_items [of dvs] by (force simp: varNames_def image_iff)
  then show ?thesis
    unfolding register_DVs_def by (rule register_fold_other)
qed

lemma register_DVs_idem:
  "register_DVs nm dvs (register_DVs nm dvs cur) = register_DVs nm dvs cur"
  unfolding register_DVs_def
proof (rule register_fold_noop, clarify)
  fix dn dv
  assume "(dn, dv) \<in> set (dict_items dvs)"
  with distinct_dict_items [of dvs]
  show "dict_get (fold (\<lambda>(dvName, dv) cur'. dict_set cur' (nm @ ''_'' @ dvName) (dv_value dv))
                   (dict_items dvs) cur) (nm @ ''_'' @ dn) = Some (dv_value dv)"
    by (rule register_fold_hit)
qed


lemma addComponents_one:
  "addComponents sus (ArgList [a]) w = Returned w' \<Longrightarrow>
   compHeap w' a = sus (units (prob w)) (compHeap w a) \<and>
   prob w' = (prob w)\<lparr>components := dict_set (components (prob w)) (comp_name (compHeap w' a)) a,
                      currentDVs := register_DVs (wp_name (prob w)) (comp_DVs (compHeap w' a))
                                      (currentDVs (prob w))\<rparr>"
  by (auto simp: addComponents_def Let_def)

lemma register_fold_keys:
  "set (dict_keys (fold (\<lambda>(dvName, dv) cur'. dict_set cur' (nm @ ''_'' @ dvName) (dv_value dv))
                        items cur))
     = set (dict_keys cur) \<union> (\<lambda>(dn, dv). nm @ ''_'' @ dn) ` set items"
  by (induction items arbitrary: cur) (auto simp: set_dict_keys_dict_set)

lemma register_DVs_keys:
  "set (dict_keys (register_DVs nm dvs cur)) = set (dict_keys cur) \<union> set (varNames nm dvs)"
proof -
  have "(\<lambda>(dn, dv). nm @ ''_'' @ dn) ` set (dict_items dvs)
          = (\<lambda>k. nm @ ''_'' @ k) ` fst ` set (dict_items dvs)"
    by (force simp: image_iff)
  also have "\<dots> = set (varNames nm dvs)"
    unfolding set_fst_dict_items by (simp add: varNames_def)
  finally have e: "(\<lambda>(dn, dv). nm @ ''_'' @ dn) ` set (dict_items dvs) = set (varNames nm dvs)" .
  show ?thesis
    unfolding register_DVs_def register_fold_keys e ..
qed

text \<open>
  Claim C9. Registering the same component object a second time: \<open>w'\<close> is the
  problem after the first \<open>addComponents([comp])\<close>, \<open>w''\<close> after the second. The
  component's \<open>setUnitSystem\<close> is the component's own method and is a parameter here.
  Whatever it does, cache entries whose name is not one of this component's variable
  names are the same after the second call. If the component still has its name, the
  \<open>components\<close> mapping is the same, holds exactly one entry for that name, and that
  entry is the component. If the component still has the same set of DV keys, the cache
  has the same set of names, so no entry was added. If name and DVs are both untouched,
  the whole problem state is the same as after the first call.
\<close>

theorem addComponents_same_object_twice:
  assumes "addComponents sus (ArgList [a]) w = Returned w'"
    and "addComponents sus (ArgList [a]) w' = Returned w''"
  shows "(key \<notin> set (varNames (wp_name (prob w')) (comp_DVs (compHeap w'' a))) \<longrightarrow>
            dict_get (currentDVs (prob w'')) key = dict_get (currentDVs (prob w')) key) \<and>
         (comp_name (compHeap w'' a) = comp_name (compHeap w' a) \<longrightarrow>
            components (prob w'') = components (prob w') \<and>
            dict_get (components (prob w'')) (comp_name (compHeap w' a)) = Some a \<and>
            count_list (dict_keys (components (prob w''))) (comp_name (compHeap w' a)) = 1) \<and>
         (set (dict_keys (comp_DVs (compHeap w'' a))) = set (dict_keys (comp_DVs (compHeap w' a)))
            \<longrightarrow> set (dict_keys (currentDVs (prob w''))) = set (dict_keys (currentDVs (prob w')))) \<and>
         (comp_name (compHeap w'' a) = comp_name (compHeap w' a) \<and>
          comp_DVs (compHeap w'' a) = comp_DVs (compHeap w' a) \<longrightarrow> prob w'' = prob w')"
proof -
  note one = addComponents_one [OF assms(1)]
  note two = addComponents_one [OF assms(2)]
  have nm: "wp_name (prob w') = wp_name (prob w)"
    using one by simp
  have frame: "dict_get (currentDVs (prob w'')) key = dict_get (currentDVs (prob w')) key"
    if "key \<notin> set (varNames (wp_name (prob w')) (comp_DVs (compHeap w'' a)))"
    using that two by (simp add: register_DVs_other)
  have comps: "components (prob w'') = components (prob w') \<and>
            dict_get (components (prob w'')) (comp_name (compHeap w' a)) = Some a \<and>
            count_list (dict_keys (components (prob w''))) (comp_name (compHeap w' a)) = 1"
    if same: "comp_name (compHeap w'' a) = comp_name (compHeap w' a)"
  proof -
    have c: "components (prob w'') = components (prob w')"
      using one two same by (simp add: dict_set_twice)
    have g: "dict_get (components (prob w'')) (comp_name (compHeap w' a)) = Some a"
      using one by (simp add: c dict_get_dict_set)
    then have "comp_name (compHeap w' a) \<in> set (dict_keys (components (prob w'')))"
      by (rule dict_get_keys)
    then have "count_list (dict_keys (components (prob w''))) (comp_name (compHeap w' a)) = 1"
      using count_list_distinct [OF distinct_dict_keys] by simp
    with c g show ?thesis by simp
  qed
  have keys: "set (dict_keys (currentDVs (prob w''))) = set (dict_keys (currentDVs (prob w')))"
    if same: "set (dict_keys (comp_DVs (compHeap w'' a)))
                = set (dict_keys (comp_DVs (compHeap w' a)))"
  proof -
    have v: "set (varNames (wp_name (prob w)) (comp_DVs (compHeap w'' a)))
               = set (varNames (wp_name (prob w)) (comp_DVs (compHeap w' a)))"
      using same by (simp add: varNames_def)
    have "set (dict_keys (currentDVs (prob w')))
            = set (dict_keys (currentDVs (prob w))) \<union>
              set (varNames (wp_name (prob w)) (comp_DVs (compHeap w' a)))"
      using one by (simp add: register_DVs_keys)
    moreover have "set (dict_keys (currentDVs (prob w'')))
            = set (dict_keys (currentDVs (prob w'))) \<union>
              set (varNames (wp_name (prob w)) (comp_DVs (compHeap w'' a)))"
      using two nm by (simp add: register_DVs_keys)
    ultimately show ?thesis
      using v by auto
  qed
  have whole: "prob w'' = prob w'"
    if same: "comp_name (compHeap w'' a) = comp_name (compHeap w' a) \<and>
              comp_DVs (compHeap w'' a) = comp_DVs (compHeap w' a)"
  proof -
    have c: "components (prob w'') = components (prob w')"
      using comps same by simp
    have d: "currentDVs (prob w'') = currentDVs (prob w')"
      using one two same nm by (simp add: register_DVs_idem)
    have "prob w'' = (prob w')\<lparr>components := components (prob w''),
                                 currentDVs := currentDVs (prob w'')\<rparr>"
      using two by simp
    then show ?thesis
      by (simp add: c d)
  qed
  from frame comps keys whole show ?thesis
    by blast
qed

text \<open>
  The theorem at a problem that holds a tail and a wing, the wing registered twice; here
  \<open>setUnitSystem\<close> stores the unit system in the component and touches nothing else.
\<close>

theorem addComponents_same_object_twice_witness:
  "prob (state_of (addComponents (\<lambda>u c. c\<lparr>Component.more := u\<rparr>) (ArgList [10])
      (state_of (addComponents (\<lambda>u c. c\<lparr>Component.more := u\<rparr>) (ArgList [11, 10])
        \<lparr>prob = WeightProblem_init ''wp'' ''SI'' None,
         compHeap = (\<lambda>a. if a = 10
            then \<lparr>comp_name = ''wing'', compType = ''structure'',
                  comp_DVs = [(''wing_area'', \<lparr>dv_key = ''area'', dv_value = 5 :: real,
                     dv_lower = None, dv_upper = None, dv_scale = 1, dv_offset = 0,
                     dv_addToPyOpt = True\<rparr>)], \<dots> = ''none''\<rparr>
            else \<lparr>comp_name = ''tail'', compType = ''structure'',
                  comp_DVs = [(''tail_span'', \<lparr>dv_key = ''span'', dv_value = 2,
                     dv_lower = None, dv_upper = None, dv_scale = 1, dv_offset = 0,
                     dv_addToPyOpt = True\<rparr>)], \<dots> = ''none''\<rparr>),
         caseHeap = (\<lambda>a. FuelCase_init [] 0 0)\<rparr>))))
   = prob (state_of (addComponents (\<lambda>u c. c\<lparr>Component.more := u\<rparr>) (ArgList [11, 10])
        \<lparr>prob = WeightProblem_init ''wp'' ''SI'' None,
         compHeap = (\<lambda>a. if a = 10
            then \<lparr>comp_name = ''wing'', compType = ''structure'',
                  comp_DVs = [(''wing_area'', \<lparr>dv_key = ''area'', dv_value = 5 :: real,
                     dv_lower = None, dv_upper = None, dv_scale = 1, dv_offset = 0,
                     dv_addToPyOpt = True\<rparr>)], \<dots> = ''none''\<rparr>
            else \<lparr>comp_name = ''tail'', compType = ''structure'',
                  comp_DVs = [(''tail_span'', \<lparr>dv_key = ''span'', dv_value = 2,
                     dv_lower = None, dv_upper = None, dv_scale = 1, dv_offset = 0,
                     dv_addToPyOpt = True\<rparr>)], \<dots> = ''none''\<rparr>),
         caseHeap = (\<lambda>a. FuelCase_init [] 0 0)\<rparr>))"
proof -
  define sus :: "string \<Rightarrow> (real, string) Component_scheme \<Rightarrow> (real, string) Component_scheme"
    where "sus = (\<lambda>u c. c\<lparr>Component.more := u\<rparr>)"
  define w0 :: "(real, string) world" where "w0 =
        \<lparr>prob = WeightProblem_init ''wp'' ''SI'' None,
         compHeap = (\<lambda>a. if a = 10
            then \<lparr>comp_name = ''wing'', compType = ''structure'',
                  comp_DVs = [(''wing_area'', \<lparr>dv_key = ''area'', dv_value = 5 :: real,
                     dv_lower = None, dv_upper = None, dv_scale = 1, dv_offset = 0,
                     dv_addToPyOpt = True\<rparr>)], \<dots> = ''none''\<rparr>
            else \<lparr>comp_name = ''tail'', compType = ''structure'',
                  comp_DVs = [(''tail_span'', \<lparr>dv_key = ''span'', dv_value = 2,
                     dv_lower = None, dv_upper = None, dv_scale = 1, dv_offset = 0,
                     dv_addToPyOpt = True\<rparr>)], \<dots> = ''none''\<rparr>),
         caseHeap = (\<lambda>a. FuelCase_init [] 0 0)\<rparr>"
  define w where "w = state_of (addComponents sus (ArgList [11]) w0)"
  define w' where "w' = state_of (addComponents sus (ArgList [10]) w)"
  define w'' where "w'' = state_of (addComponents sus (ArgList [10]) w')"
  have r1: "addComponents sus (ArgList [10]) w = Returned w'"
    and r2: "addComponents sus (ArgList [10]) w' = Returned w''"
    by (simp_all add: w'_def w''_def addComponents_def)
  have loop2: "addComponents_loop sus [11, 10] w0 = addComponents_loop sus [10] (addComponents_loop sus [11] w0)"
    by (simp add: Let_def)
  have both: "state_of (addComponents sus (ArgList [11, 10]) w0) = w'"
    by (simp only: w'_def w_def addComponents_def type_is_list.simps if_True list_items.simps
          state_of.simps loop2)
  have h2: "compHeap w'' 10 = sus (units (prob w')) (compHeap w' 10)"
    by (simp add: w''_def addComponents_def Let_def)
  have same: "comp_name (compHeap w'' 10) = comp_name (compHeap w' 10) \<and>
              comp_DVs (compHeap w'' 10) = comp_DVs (compHeap w' 10)"
    by (simp add: h2 sus_def)
  from addComponents_same_object_twice [OF r1 r2] same have "prob w'' = prob w'"
    by simp
  then show ?thesis
    unfolding w''_def both [symmetric] w0_def sus_def .
qed

section \<open>Design variables of other problems\<close>

lemma setDesignVars_comp_keys_unrelated:
  "(\<And>k. k \<in> set ks \<Longrightarrow> dict_get x (wp_name (prob w) @ ''_'' @ k) = None) \<Longrightarrow>
   setDesignVars_comp_keys cs x a ks w = w"
  unfolding setDesignVars_comp_keys_def
  by (induction ks) (simp_all add: Let_def)

lemma setDesignVars_comps_fold_unrelated:
  "(\<And>ck a k. (ck, a) \<in> set items \<Longrightarrow> k \<in> set (dict_keys (comp_DVs (compHeap w a))) \<Longrightarrow>
        dict_get x (wp_name (prob w) @ ''_'' @ k) = None) \<Longrightarrow>
   fold (\<lambda>(compKey, a) w.
           setDesignVars_comp_keys cs x a (dict_keys (comp_DVs (compHeap w a))) w) items w = w"
proof (induction items)
  case Nil
  then show ?case by simp
next
  case (Cons i items)
  obtain ck a where i: "i = (ck, a)" by (cases i)
  have "setDesignVars_comp_keys cs x a (dict_keys (comp_DVs (compHeap w a))) w = w"
  proof (rule setDesignVars_comp_keys_unrelated)
    fix k
    assume k: "k \<in> set (dict_keys (comp_DVs (compHeap w a)))"
    have "(ck, a) \<in> set (i # items)" by (simp add: i)
    from Cons.prems [OF this k]
    show "dict_get x (wp_name (prob w) @ ''_'' @ k) = None" .
  qed
  moreover have "fold (\<lambda>(compKey, a) w.
           setDesignVars_comp_keys cs x a (dict_keys (comp_DVs (compHeap w a))) w) items w = w"
  proof (rule Cons.IH)
    fix ck' a' k
    assume "(ck', a') \<in> set items" and k: "k \<in> set (dict_keys (comp_DVs (compHeap w a')))"
    then have "(ck', a') \<in> set (i # items)" by simp
    from Cons.prems [OF this k]
    show "dict_get x (wp_name (prob w) @ ''_'' @ k) = None" .
  qed
  ultimately show ?case
    by (simp add: i)
qed

lemma setDesignVars_case_keys_unrelated:
  "(\<And>k. k \<in> set ks \<Longrightarrow> dict_get x (wp_name (prob w) @ ''_'' @ k) = None) \<Longrightarrow>
   setDesignVars_case_keys x a ks w = Returned w"
  by (induction ks) (simp_all add: Let_def)

lemma setDesignVars_cases_unrelated:
  "(\<And>a k. a \<in> set as \<Longrightarrow> k \<in> set (dict_keys (DVs (caseHeap w a))) \<Longrightarrow>
        dict_get x (wp_name (prob w) @ ''_'' @ k) = None) \<Longrightarrow>
   setDesignVars_cases x as w = Returned w"
proof (induction as)
  case Nil
  then show ?case by simp
next
  case (Cons a as)
  have "setDesignVars_case_keys x a (dict_keys (DVs (caseHeap w a))) w = Returned w"
  proof (rule setDesignVars_case_keys_unrelated)
    fix k
    assume k: "k \<in> set (dict_keys (DVs (caseHeap w a)))"
    have "a \<in> set (a # as)" by simp
    from Cons.prems [OF this k]
    show "dict_get x (wp_name (prob w) @ ''_'' @ k) = None" .
  qed
  moreover have "setDesignVars_cases x as w = Returned w"
  proof (rule Cons.IH)
    fix a' k
    assume "a' \<in> set as" and k: "k \<in> set (dict_keys (DVs (caseHeap w a')))"
    then have "a' \<in> set (a # as)" by simp
    from Cons.prems [OF this k]
    show "dict_get x (wp_name (prob w) @ ''_'' @ k) = None" .
  qed
  ultimately show ?case
    by simp
qed

lemma getVarNames_comp:
  "(ck, a) \<in> set (dict_items (components (prob w))) \<Longrightarrow>
   k \<in> set (dict_keys (comp_DVs (compHeap w a))) \<Longrightarrow>
   wp_name (prob w) @ ''_'' @ k \<in> set (getVarNames w)"
  unfolding getVarNames_def varNames_def by force

lemma getVarNames_case:
  "a \<in> set (fuelcases (prob w)) \<Longrightarrow> k \<in> set (dict_keys (DVs (caseHeap w a))) \<Longrightarrow>
   wp_name (prob w) @ ''_'' @ k \<in> set (getVarNames w)"
  unfolding getVarNames_def varNames_def by force

text \<open>
  Claim C7. A mapping \<open>x\<close> that holds none of the problem's variable names, the names
  \<open>getVarNames\<close> lists for the registered components and fuel cases: then
  \<open>setDesignVars(x)\<close> returns, raises nothing, and the problem, every component and
  every fuel case are what they were, so every DV value, every attribute and the
  \<open>currentDVs\<close> cache are unchanged. No component's \<open>setDesignVars\<close> is called.
\<close>

theorem setDesignVars_unrelated_names:
  assumes "\<forall>n \<in> set (getVarNames w). dict_get x n = None"
  shows "setDesignVars compSetDesignVars x w = Returned w"
proof -
  have comps: "setDesignVars_comps compSetDesignVars x w = w"
    unfolding setDesignVars_comps_def
  proof (rule setDesignVars_comps_fold_unrelated)
    fix ck a k
    assume "(ck, a) \<in> set (dict_items (components (prob w)))"
      and "k \<in> set (dict_keys (comp_DVs (compHeap w a)))"
    then have "wp_name (prob w) @ ''_'' @ k \<in> set (getVarNames w)"
      by (rule getVarNames_comp)
    with assms show "dict_get x (wp_name (prob w) @ ''_'' @ k) = None"
      by (rule bspec)
  qed
  have "setDesignVars_cases x (fuelcases (prob w)) w = Returned w"
  proof (rule setDesignVars_cases_unrelated)
    fix a k
    assume "a \<in> set (fuelcases (prob w))" and "k \<in> set (dict_keys (DVs (caseHeap w a)))"
    then have "wp_name (prob w) @ ''_'' @ k \<in> set (getVarNames w)"
      by (rule getVarNames_case)
    with assms show "dict_get x (wp_name (prob w) @ ''_'' @ k) = None"
      by (rule bspec)
  qed
  then show ?thesis
    by (simp add: setDesignVars_def comps)
qed

text \<open>
  The theorem at a problem \<open>wp\<close> with a wing and a cruise case, and a mapping that holds
  the variables of another problem.
\<close>

theorem setDesignVars_unrelated_names_witness:
  "setDesignVars (\<lambda>x c. c) [(''other_cruise_fuelFraction'', 1 / 2), (''other_wing_area'', 7)]
     \<lparr>prob = \<lparr>wp_name = ''wp'', units = ''si'', components = [(''wing'', 10)], fuelcases = [20],
              currentDVs = [(''wp_wing_area'', 5 :: real), (''wp_cruise_fuelFraction'', 9 / 10)],
              solveFailed = False, evalFuncs = {}\<rparr>,
      compHeap = (\<lambda>a. \<lparr>comp_name = ''wing'', compType = ''structure'',
                  comp_DVs = [(''wing_area'', \<lparr>dv_key = ''area'', dv_value = 5,
                     dv_lower = None, dv_upper = None, dv_scale = 1, dv_offset = 0,
                     dv_addToPyOpt = True\<rparr>)]\<rparr>),
      caseHeap = (\<lambda>a. state_of (addDV ''fuelFraction'' None None None 1 None 0 None True
                                    (FuelCase_init ''cruise'' (9 / 10) (1 / 10))))\<rparr>
   = Returned
     \<lparr>prob = \<lparr>wp_name = ''wp'', units = ''si'', components = [(''wing'', 10)], fuelcases = [20],
              currentDVs = [(''wp_wing_area'', 5 :: real), (''wp_cruise_fuelFraction'', 9 / 10)],
              solveFailed = False, evalFuncs = {}\<rparr>,
      compHeap = (\<lambda>a. \<lparr>comp_name = ''wing'', compType = ''structure'',
                  comp_DVs = [(''wing_area'', \<lparr>dv_key = ''area'', dv_value = 5,
                     dv_lower = None, dv_upper = None, dv_scale = 1, dv_offset = 0,
                     dv_addToPyOpt = True\<rparr>)]\<rparr>),
      caseHeap = (\<lambda>a. state_of (addDV ''fuelFraction'' None None None 1 None 0 None True
                                    (FuelCase_init ''cruise'' (9 / 10) (1 / 10))))\<rparr>"
proof (rule setDesignVars_unrelated_names)
  have c: "state_of (addDV ''fuelFraction'' None None None 1 None 0 None True
             (FuelCase_init ''cruise'' (9 / 10 :: real) (1 / 10)))
         = (FuelCase_init ''cruise'' (9 / 10) (1 / 10))
             \<lparr>DVs := [(''cruise_fuelFraction'', \<lparr>dv_key = ''fuelFraction'', dv_value = 9 / 10,
                        dv_lower = None, dv_upper = None, dv_scale = 1, dv_offset = 0,
                        dv_addToPyOpt = True\<rparr>)],
              DVNames := [(''fuelFraction'', ''cruise_fuelFraction'')]\<rparr>"
    by (simp add: addDV_def possibleDVs_def Let_def addDV_name_def getattr_fc_def
          FuelCase_init_def dict_set_def)
  show "\<forall>n \<in> set (getVarNames
     \<lparr>prob = \<lparr>wp_name = ''wp'', units = ''si'', components = [(''wing'', 10)], fuelcases = [20],
              currentDVs = [(''wp_wing_area'', 5 :: real), (''wp_cruise_fuelFraction'', 9 / 10)],
              solveFailed = False, evalFuncs = {}\<rparr>,
      compHeap = (\<lambda>a. \<lparr>comp_name = ''wing'', compType = ''structure'',
                  comp_DVs = [(''wing_area'', \<lparr>dv_key = ''area'', dv_value = 5,
                     dv_lower = None, dv_upper = None, dv_scale = 1, dv_offset = 0,
                     dv_addToPyOpt = True\<rparr>)]\<rparr>),
      caseHeap = (\<lambda>a. state_of (addDV ''fuelFraction'' None None None 1 None 0 None True
                                    (FuelCase_init ''cruise'' (9 / 10) (1 / 10))))\<rparr>).
     dict_get [(''other_cruise_fuelFraction'', 1 / 2), (''other_wing_area'', 7 :: real)] n = None"
    unfolding c
    by (simp add: getVarNames_def varNames_def dict_items_def dict_keys_def dict_get_def
          List.map_filter_simps)
qed

end
